theory Spec2Isabelle
  imports Complex_Main
begin

section \<open>Floating-point numbers\<close>

text \<open>
  Every coordinate, size, margin and factor of the program is a Go \<open>float64\<close>.
  The model keeps the four kinds of IEEE-754 value the layout code can tell apart:
  a finite number, the two infinities and not-a-number. Finite arithmetic is exact
  real arithmetic: rounding, overflow to infinity and the sign of zero are left out
  (every zero is the positive zero, so a finite non-zero number divided by zero takes
  the sign of its numerator). Division by zero, \<open>Inf - Inf\<close>, \<open>0 * Inf\<close> and
  comparisons with not-a-number behave as in Go. The operations are those of the type
  classes of \<open>+\<close>, \<open>-\<close>, \<open>*\<close>, \<open>/\<close> and \<open><\<close>; the class of \<open>/\<close> also asks for
  the reciprocal, which the program does not use.
\<close>

datatype float64 = Fin real | PInf | NInf | NaN

instantiation float64 :: "{plus, uminus, minus, times, inverse, ord}"
begin

fun plus_float64 :: "float64 \<Rightarrow> float64 \<Rightarrow> float64" where
  "plus_float64 (Fin a) (Fin b) = Fin (a + b)"
| "plus_float64 NaN _ = NaN"
| "plus_float64 _ NaN = NaN"
| "plus_float64 PInf NInf = NaN"
| "plus_float64 NInf PInf = NaN"
| "plus_float64 PInf _ = PInf"
| "plus_float64 _ PInf = PInf"
| "plus_float64 NInf _ = NInf"
| "plus_float64 _ NInf = NInf"

fun uminus_float64 :: "float64 \<Rightarrow> float64" where
  "uminus_float64 (Fin a) = Fin (- a)"
| "uminus_float64 PInf = NInf"
| "uminus_float64 NInf = PInf"
| "uminus_float64 NaN = NaN"

definition minus_float64 :: "float64 \<Rightarrow> float64 \<Rightarrow> float64" where
  "minus_float64 (a::float64) (b::float64) = (a + (- b) :: float64)"

fun times_float64 :: "float64 \<Rightarrow> float64 \<Rightarrow> float64" where
  "times_float64 (Fin a) (Fin b) = Fin (a * b)"
| "times_float64 NaN _ = NaN"
| "times_float64 _ NaN = NaN"
| "times_float64 PInf (Fin b) = (if 0 < b then PInf else if b < 0 then NInf else NaN)"
| "times_float64 NInf (Fin b) = (if 0 < b then NInf else if b < 0 then PInf else NaN)"
| "times_float64 (Fin a) PInf = (if 0 < a then PInf else if a < 0 then NInf else NaN)"
| "times_float64 (Fin a) NInf = (if 0 < a then NInf else if a < 0 then PInf else NaN)"
| "times_float64 PInf PInf = PInf"
| "times_float64 NInf NInf = PInf"
| "times_float64 PInf NInf = NInf"
| "times_float64 NInf PInf = NInf"

fun divide_float64 :: "float64 \<Rightarrow> float64 \<Rightarrow> float64" where
  "divide_float64 (Fin a) (Fin b) =
     (if b = 0 then (if 0 < a then PInf else if a < 0 then NInf else NaN)
      else Fin (a / b))"
| "divide_float64 NaN _ = NaN"
| "divide_float64 _ NaN = NaN"
| "divide_float64 (Fin a) _ = Fin 0"
| "divide_float64 PInf (Fin b) = (if 0 \<le> b then PInf else NInf)"
| "divide_float64 NInf (Fin b) = (if 0 \<le> b then NInf else PInf)"
| "divide_float64 _ _ = NaN"

fun inverse_float64 :: "float64 \<Rightarrow> float64" where
  "inverse_float64 (Fin a) = (if a = 0 then PInf else Fin (1 / a))"
| "inverse_float64 NaN = NaN"
| "inverse_float64 _ = Fin 0"

fun less_float64 :: "float64 \<Rightarrow> float64 \<Rightarrow> bool" where
  "less_float64 (Fin a) (Fin b) = (a < b)"
| "less_float64 NaN _ = False"
| "less_float64 _ NaN = False"
| "less_float64 _ NInf = False"
| "less_float64 PInf _ = False"
| "less_float64 _ _ = True"

definition less_eq_float64 :: "float64 \<Rightarrow> float64 \<Rightarrow> bool" where
  "less_eq_float64 (a::float64) (b::float64) = (a < b \<or> (a \<noteq> NaN \<and> a = b))"

instance ..

end

text \<open>Go's \<open>==\<close> and \<open>!=\<close> on floats: not-a-number is unequal to everything, itself included.\<close>

definition feq :: "float64 \<Rightarrow> float64 \<Rightarrow> bool" where
  "feq a b = (a \<noteq> NaN \<and> a = b)"

definition fne :: "float64 \<Rightarrow> float64 \<Rightarrow> bool" where
  "fne a b = (\<not> feq a b)"

text \<open>\<open>math.Min\<close>, \<open>math.Max\<close>, \<open>math.Abs\<close> and \<open>math.Inf(1)\<close> of the Go library, special
  cases in the library's order.\<close>

definition math_Min :: "float64 \<Rightarrow> float64 \<Rightarrow> float64" where
  "math_Min x y = (if x = NInf \<or> y = NInf then NInf
                   else if x = NaN \<or> y = NaN then NaN
                   else if x < y then x else y)"

definition math_Max :: "float64 \<Rightarrow> float64 \<Rightarrow> float64" where
  "math_Max x y = (if x = PInf \<or> y = PInf then PInf
                   else if x = NaN \<or> y = NaN then NaN
                   else if y < x then x else y)"

fun math_Abs :: "float64 \<Rightarrow> float64" where
  "math_Abs (Fin a) = Fin \<bar>a\<bar>"
| "math_Abs PInf = PInf"
| "math_Abs NInf = PInf"
| "math_Abs NaN = NaN"

text \<open>The conversion \<open>float64(n)\<close> of an \<open>int\<close>.\<close>

definition float64_of_int :: "int \<Rightarrow> float64" where
  "float64_of_int n = Fin (of_int n)"

section \<open>Geometry (package geo)\<close>

record Point =
  X :: float64
  Y :: float64

record Rectangle =
  MinP :: Point
  MaxP :: Point

definition Pt :: "float64 \<Rightarrow> float64 \<Rightarrow> Point" where
  "Pt x y = \<lparr>X = x, Y = y\<rparr>"

definition Rect :: "float64 \<Rightarrow> float64 \<Rightarrow> float64 \<Rightarrow> float64 \<Rightarrow> Rectangle" where
  "Rect x0 y0 x1 y1 =
     (let (x0, x1) = (if x1 < x0 then (x1, x0) else (x0, x1));
          (y0, y1) = (if y1 < y0 then (y1, y0) else (y0, y1))
      in \<lparr>MinP = \<lparr>X = x0, Y = y0\<rparr>, MaxP = \<lparr>X = x1, Y = y1\<rparr>\<rparr>)"

definition Dx :: "Rectangle \<Rightarrow> float64" where
  "Dx r = X (MaxP r) - X (MinP r)"

definition Dy :: "Rectangle \<Rightarrow> float64" where
  "Dy r = Y (MaxP r) - Y (MinP r)"

definition Size :: "Rectangle \<Rightarrow> Point" where
  "Size r = \<lparr>X = X (MaxP r) - X (MinP r), Y = Y (MaxP r) - Y (MinP r)\<rparr>"

definition Add :: "Rectangle \<Rightarrow> Point \<Rightarrow> Rectangle" where
  "Add r p = \<lparr>MinP = \<lparr>X = X (MinP r) + X p, Y = Y (MinP r) + Y p\<rparr>,
              MaxP = \<lparr>X = X (MaxP r) + X p, Y = Y (MaxP r) + Y p\<rparr>\<rparr>"

definition Sub :: "Rectangle \<Rightarrow> Point \<Rightarrow> Rectangle" where
  "Sub r p = \<lparr>MinP = \<lparr>X = X (MinP r) - X p, Y = Y (MinP r) - Y p\<rparr>,
              MaxP = \<lparr>X = X (MaxP r) - X p, Y = Y (MaxP r) - Y p\<rparr>\<rparr>"

section \<open>Style attributes and the node\<close>

datatype Direction = Row | Column

datatype Justify =
  JustifyStart | JustifyEnd | JustifyCenter | JustifySpaceBetween | JustifySpaceAround

datatype AlignItem = AlignItemStretch | AlignItemStart | AlignItemEnd | AlignItemCenter

datatype FlexWrap = NoWrap | Wrap | WrapReverse

datatype AlignContent =
  AlignContentStart | AlignContentEnd | AlignContentCenter
  | AlignContentSpaceBetween | AlignContentSpaceAround | AlignContentStretch

datatype Position = PositionStatic | PositionAbsolute

datatype Display = DisplayFlex | DisplayNone

text \<open>
  The struct \<open>View\<close>: its style attributes, \<open>hasParent\<close>, and the fields of the embedded
  \<open>containerEmbed\<close> that the layout reads and writes (\<open>isDirty\<close>, \<open>frame\<close>,
  \<open>calculatedWidth\<close>, \<open>calculatedHeight\<close>). The type \<open>containerEmbed\<close> is declared in a
  source file that is not available; its fields are taken from their uses in the
  available code. The identification fields (\<open>ID\<close>, \<open>TagName\<close>, \<open>Attrs\<close>, ...), the
  handler and the lock take no part in layout and are left out. The pointers \<open>children\<close>
  and \<open>parent\<close> are added by the two extensions of the record below. The first
  constructor of every enumeration is Go's zero value; the numeric types behind the
  enumerations also have values without a name, which the datatypes leave out.
\<close>

record View =
  Left :: float64
  Right :: "float64 option"
  Top :: float64
  Bottom :: "float64 option"
  Width :: float64
  WidthInPct :: float64
  Height :: float64
  HeightInPct :: float64
  MarginLeft :: float64
  MarginTop :: float64
  MarginRight :: float64
  MarginBottom :: float64
  Position :: Position
  Direction :: Direction
  Wrap :: FlexWrap
  Justify :: Justify
  AlignItems :: AlignItem
  AlignContent :: AlignContent
  Grow :: float64
  Shrink :: float64
  Display :: Display
  Hidden :: bool
  isDirty :: bool
  frame :: Rectangle
  calculatedWidth :: float64
  calculatedHeight :: float64
  hasParent :: bool

definition zeroRect :: Rectangle where
  "zeroRect = \<lparr>MinP = \<lparr>X = Fin 0, Y = Fin 0\<rparr>, MaxP = \<lparr>X = Fin 0, Y = Fin 0\<rparr>\<rparr>"

text \<open>The value of \<open>&View{}\<close>: every field zero.\<close>

definition zeroView :: View where
  "zeroView = \<lparr>Left = Fin 0, Right = None, Top = Fin 0, Bottom = None,
     Width = Fin 0, WidthInPct = Fin 0, Height = Fin 0, HeightInPct = Fin 0,
     MarginLeft = Fin 0, MarginTop = Fin 0, MarginRight = Fin 0, MarginBottom = Fin 0,
     Position = PositionStatic, Direction = Row, Wrap = NoWrap, Justify = JustifyStart,
     AlignItems = AlignItemStretch, AlignContent = AlignContentStart,
     Grow = Fin 0, Shrink = Fin 0, Display = DisplayFlex, Hidden = False,
     isDirty = False, frame = zeroRect, calculatedWidth = Fin 0, calculatedHeight = Fin 0,
     hasParent = False\<rparr>"

definition isWidthFixed :: "'a View_scheme \<Rightarrow> bool" where
  "isWidthFixed v = (fne (Width v) (Fin 0) \<or> fne (WidthInPct v) (Fin 0))"

definition width :: "'a View_scheme \<Rightarrow> float64" where
  "width v = (if feq (Width v) (Fin 0) then calculatedWidth v else Width v)"

definition isHeightFixed :: "'a View_scheme \<Rightarrow> bool" where
  "isHeightFixed v = (fne (Height v) (Fin 0) \<or> fne (HeightInPct v) (Fin 0))"

definition height :: "'a View_scheme \<Rightarrow> float64" where
  "height v = (if feq (Height v) (Fin 0) then calculatedHeight v else Height v)"

section \<open>The view tree\<close>

text \<open>
  For the layout a view owns the views of its child list, and the layout of a view reads
  and writes the view and its children only. The tree of views is a datatype: a node
  carries its own fields and the list of its children in flow order. Every entry of a
  child list is a wrapper struct \<open>child\<close> around the \<open>item\<close> pointer; the wrapper's fields
  \<open>bounds\<close> and \<open>absolute\<close> are kept with the item they wrap. The type \<open>child\<close> is
  declared in a source file that is not available; the two fields are taken from their
  uses in the layout.
\<close>

record child = View +
  bounds :: Rectangle
  absolute :: bool

datatype ViewTree = ViewNode (item: child) (subviews: "ViewTree list")

definition zeroChild :: child where
  "zeroChild = View.extend zeroView \<lparr>bounds = zeroRect, absolute = False\<rparr>"

text \<open>
  Modelled from the spec: \<open>setFrame\<close> is a method of \<open>containerEmbed\<close>, whose source file is
  not available. The spec says that the layout stores the frame of each flow child; it
  does not say whether storing the frame also marks the child dirty. That choice is the
  parameter \<open>d\<close> of the layout, and every result below holds for both values.
\<close>

definition setFrame :: "bool \<Rightarrow> Rectangle \<Rightarrow> 'a View_scheme \<Rightarrow> 'a View_scheme" where
  "setFrame d r v = v\<lparr>frame := r, isDirty := (isDirty v \<or> d)\<rparr>"

section \<open>The layout of one container (flex.go)\<close>

record element =
  node :: child
  idx :: nat
  flexBaseSize :: float64
  mainSize :: float64
  mainOffset :: float64
  mainMargin :: "float64 list"
  crossSize :: float64
  crossOffset :: float64
  crossMargin :: "float64 list"
  frozen :: bool
  maxContentFlexFraction :: float64
  widthInPct :: float64
  heightInPct :: float64

text \<open>
  An element points to the child it lays out. Here it carries the child's value, and
  \<open>idx\<close>, the position of the child in the container's child list, stands for the
  pointer: the layout writes the values back at these positions when it is done.
\<close>

record flexLine =
  lineMainSize :: float64
  lineCrossSize :: float64
  lineCrossOffset :: float64
  lineChild :: "element list"

definition zeroLine :: flexLine where
  "zeroLine = \<lparr>lineMainSize = Fin 0, lineCrossSize = Fin 0, lineCrossOffset = Fin 0,
                lineChild = []\<rparr>"

subsection \<open>The axis mapping\<close>

text \<open>The methods of \<open>flexEmbed\<close>; \<open>f\<close> is the container. The methods \<open>mainSize\<close>,
  \<open>crossSize\<close>, \<open>mainMargin\<close>, \<open>crossMargin\<close> and \<open>flexBaseSize\<close> share their names with
  fields of \<open>element\<close> and carry the suffix \<open>_m\<close>.\<close>

definition mainSize_m :: "'a View_scheme \<Rightarrow> float64 \<Rightarrow> float64 \<Rightarrow> float64" where
  "mainSize_m f x y = (case Direction f of Row \<Rightarrow> x | Column \<Rightarrow> y)"

definition crossSize_m :: "'a View_scheme \<Rightarrow> float64 \<Rightarrow> float64 \<Rightarrow> float64" where
  "crossSize_m f x y = (case Direction f of Row \<Rightarrow> y | Column \<Rightarrow> x)"

definition setCrossSize :: "'a View_scheme \<Rightarrow> float64 \<Rightarrow> 'a View_scheme" where
  "setCrossSize f v = (case Direction f of
      Row \<Rightarrow> f\<lparr>calculatedHeight := v\<rparr>
    | Column \<Rightarrow> f\<lparr>calculatedWidth := v\<rparr>)"

definition setMainSize :: "'a View_scheme \<Rightarrow> float64 \<Rightarrow> 'a View_scheme" where
  "setMainSize f v = (case Direction f of
      Row \<Rightarrow> f\<lparr>calculatedWidth := v\<rparr>
    | Column \<Rightarrow> f\<lparr>calculatedHeight := v\<rparr>)"

definition isCrossSizeFixed :: "'a View_scheme \<Rightarrow> 'b View_scheme \<Rightarrow> bool" where
  "isCrossSizeFixed f v = (case Direction f of
      Row \<Rightarrow> isHeightFixed v
    | Column \<Rightarrow> isWidthFixed v)"

definition mainMargin_m :: "'a View_scheme \<Rightarrow> 'b View_scheme \<Rightarrow> float64 list" where
  "mainMargin_m f c = (case Direction f of
      Row \<Rightarrow> [MarginLeft c, MarginRight c]
    | Column \<Rightarrow> [MarginTop c, MarginBottom c])"

definition crossMargin_m :: "'a View_scheme \<Rightarrow> 'b View_scheme \<Rightarrow> float64 list" where
  "crossMargin_m f c = (case Direction f of
      Row \<Rightarrow> [MarginTop c, MarginBottom c]
    | Column \<Rightarrow> [MarginLeft c, MarginRight c])"

definition flexBaseSize_m :: "'a View_scheme \<Rightarrow> 'b View_scheme \<Rightarrow> float64" where
  "flexBaseSize_m f c =
     (let w = (if feq (Width c) (Fin 0) then calculatedWidth c else Width c);
          h = (if feq (Height c) (Fin 0) then calculatedHeight c else Height c)
      in mainSize_m f w h)"

text \<open>The main size of a child as the flexible-length steps read it:
  \<open>f.mainSize(child.node.item.width(), child.node.item.height())\<close>.\<close>

definition itemMainSize :: "'a View_scheme \<Rightarrow> element \<Rightarrow> float64" where
  "itemMainSize f c = mainSize_m f (width (node c)) (height (node c))"

text \<open>The sum of the two main margins, \<open>child.mainMargin[0] + child.mainMargin[1]\<close>, and
  of the two cross margins.\<close>

definition mainMargins :: "element \<Rightarrow> float64" where
  "mainMargins c = mainMargin c ! 0 + mainMargin c ! 1"

definition crossMargins :: "element \<Rightarrow> float64" where
  "crossMargins c = crossMargin c ! 0 + crossMargin c ! 1"

subsection \<open>Children: hidden, absolute and flow\<close>

text \<open>The frame of an absolute child, from the container's frame \<open>cf\<close>.\<close>

definition absoluteBounds :: "Rectangle \<Rightarrow> 'a View_scheme \<Rightarrow> Rectangle" where
  "absoluteBounds cf c =
     (let x = (if fne (Left c) (Fin 0) then X (MinP cf) + Left c
               else (case Right c of
                       Some r \<Rightarrow> X (MaxP cf) - r - Width c
                     | None \<Rightarrow> X (MinP cf)));
          y = (if fne (Top c) (Fin 0) then Y (MinP cf) + Top c
               else (case Bottom c of
                       Some b \<Rightarrow> Y (MaxP cf) - b - Height c
                     | None \<Rightarrow> Y (MinP cf)))
      in Rect x y (x + Width c) (y + Height c))"

definition newElement :: "'a View_scheme \<Rightarrow> nat \<Rightarrow> child \<Rightarrow> element" where
  "newElement f i c =
     \<lparr>node = c, idx = i, flexBaseSize = flexBaseSize_m f c,
      mainSize = Fin 0, mainOffset = Fin 0, mainMargin = [],
      crossSize = Fin 0, crossOffset = Fin 0, crossMargin = [],
      frozen = False, maxContentFlexFraction = Fin 0,
      widthInPct = WidthInPct c, heightInPct = HeightInPct c\<rparr>"

text \<open>The first loop of \<open>layout\<close> over \<open>container.children\<close>, from position \<open>i\<close> on: it
  returns the children as it leaves them and the elements of the flow children.\<close>

fun collectChildren :: "'a View_scheme \<Rightarrow> nat \<Rightarrow> child list \<Rightarrow> child list \<times> element list" where
  "collectChildren f i [] = ([], [])"
| "collectChildren f i (c # cs) =
     (let (cs', es) = collectChildren f (Suc i) cs
      in if Display c = DisplayNone then (c # cs', es)
         else if Position c = PositionAbsolute then
           (let b = absoluteBounds (frame f) c
            in (c\<lparr>frame := b, bounds := b, absolute := True\<rparr> # cs', es))
         else
           (let c' = c\<lparr>absolute := False\<rparr>
            in (c' # cs', newElement f i c' # es)))"

subsection \<open>Width and height in percent\<close>

text \<open>
  The loops range over copies of the elements: a write to \<open>c.node.item\<close> goes through the
  pointer and stays, the write to \<open>c.flexBaseSize\<close> changes the copy only and is lost.
\<close>

definition resolvePercent ::
  "'a View_scheme \<Rightarrow> float64 \<Rightarrow> float64 \<Rightarrow> element list \<Rightarrow> element list" where
  "resolvePercent f w h cs =
     (case Direction f of
        Row \<Rightarrow>
          (let remFree = fold (\<lambda>c r. r - (Width (node c) + MarginLeft (node c)
                                            + MarginRight (node c))) cs w;
               cs1 = (if Fin 0 < remFree
                      then map (\<lambda>c. if Fin 0 < widthInPct c
                                     then c\<lparr>node := (node c)\<lparr>calculatedWidth :=
                                            math_Min (w * widthInPct c / Fin 100) remFree\<rparr>\<rparr>
                                     else c) cs
                      else cs)
           in map (\<lambda>c. if Fin 0 < heightInPct c
                        then c\<lparr>node := (node c)\<lparr>calculatedHeight :=
                               h * HeightInPct (node c) / Fin 100\<rparr>\<rparr>
                        else c) cs1)
      | Column \<Rightarrow>
          (let remFree = fold (\<lambda>c r. r - (Height (node c) + MarginTop (node c)
                                            + MarginBottom (node c))) cs h;
               cs1 = (if Fin 0 < remFree
                      then map (\<lambda>c. if Fin 0 < heightInPct c
                                     then c\<lparr>node := (node c)\<lparr>calculatedHeight :=
                                            math_Min (h * heightInPct c / Fin 100) remFree\<rparr>\<rparr>
                                     else c) cs
                      else cs)
           in map (\<lambda>c. if Fin 0 < widthInPct c
                        then c\<lparr>node := (node c)\<lparr>calculatedWidth :=
                               w * WidthInPct (node c) / Fin 100\<rparr>\<rparr>
                        else c) cs1))"

subsection \<open>Flex lines\<close>

definition hypotheticalMainSize :: "element \<Rightarrow> float64" where
  "hypotheticalMainSize c = flexBaseSize c + mainMargins c"

definition singleLine :: "'a View_scheme \<Rightarrow> element list \<Rightarrow> flexLine" where
  "singleLine f cs =
     (let cs1 = map (\<lambda>c. c\<lparr>mainMargin := mainMargin_m f (node c)\<rparr>) cs
      in \<lparr>lineMainSize = fold (\<lambda>c m. m + hypotheticalMainSize c) cs1 (Fin 0),
          lineCrossSize = Fin 0, lineCrossOffset = Fin 0, lineChild = cs1\<rparr>)"

text \<open>The multi-line loop: \<open>lines\<close> are the closed lines, \<open>line\<close> is the running line.\<close>

fun wrapLines ::
  "'a View_scheme \<Rightarrow> float64 \<Rightarrow> element list \<Rightarrow> flexLine list \<Rightarrow> flexLine
     \<Rightarrow> flexLine list \<times> flexLine" where
  "wrapLines f containerMainSize [] lines line = (lines, line)"
| "wrapLines f containerMainSize (c # cs) lines line =
     (let c1 = c\<lparr>mainMargin := mainMargin_m f (node c)\<rparr>;
          hyp = hypotheticalMainSize c1;
          (lines1, line1) =
             (if Fin 0 < lineMainSize line \<and> containerMainSize < lineMainSize line + hyp
              then (lines @ [line], zeroLine) else (lines, line))
      in wrapLines f containerMainSize cs lines1
           (line1\<lparr>lineChild := lineChild line1 @ [c1],
                  lineMainSize := lineMainSize line1 + hyp\<rparr>))"

definition collectLines :: "'a View_scheme \<Rightarrow> float64 \<Rightarrow> element list \<Rightarrow> flexLine list" where
  "collectLines f containerMainSize cs =
     (if Wrap f = NoWrap then [singleLine f cs]
      else (let (lines, line) = wrapLines f containerMainSize cs [] zeroLine
            in if 0 < length (lineChild line) \<or> length cs = 0
               then lines @ [line] else lines))"

subsection \<open>Flexible lengths\<close>

definition freezeInflexible :: "'a View_scheme \<Rightarrow> bool \<Rightarrow> element \<Rightarrow> element" where
  "freezeInflexible f grow c =
     (if grow
      then (if feq (Grow (node c)) (Fin 0)
            then c\<lparr>frozen := True, mainSize := itemMainSize f c\<rparr> else c)
      else (if feq (Shrink (node c)) (Fin 0)
            then c\<lparr>frozen := True, mainSize := itemMainSize f c\<rparr> else c))"

definition initialFreeSpace ::
  "'a View_scheme \<Rightarrow> float64 \<Rightarrow> float64 \<Rightarrow> element list \<Rightarrow> float64" where
  "initialFreeSpace f w h cs =
     fold (\<lambda>c s. s - (flexBaseSize_m f (node c) + mainMargins c)) cs (mainSize_m f w h)"

text \<open>The remaining free space and the sum of the flex factors of the unfrozen children.\<close>

definition remainingFreeSpace ::
  "'a View_scheme \<Rightarrow> float64 \<Rightarrow> float64 \<Rightarrow> bool \<Rightarrow> element list \<Rightarrow> float64 \<times> float64" where
  "remainingFreeSpace f w h grow cs =
     fold (\<lambda>c (remFreeSpace, unfrozenFlexFactor).
             if frozen c then (remFreeSpace - (mainSize c + mainMargins c), unfrozenFlexFactor)
             else (remFreeSpace - (itemMainSize f c + mainMargins c),
                   if grow then unfrozenFlexFactor + Grow (node c)
                   else unfrozenFlexFactor + Shrink (node c)))
          cs (mainSize_m f w h, Fin 0)"

text \<open>One pass of the body of the flex loop, after the test that leaves the loop.\<close>

definition flexIteration ::
  "'a View_scheme \<Rightarrow> float64 \<Rightarrow> float64 \<Rightarrow> bool \<Rightarrow> float64 \<Rightarrow> element list \<Rightarrow> element list" where
  "flexIteration f w h grow freeSpace cs =
     (let (remFreeSpace0, unfrozenFlexFactor) = remainingFreeSpace f w h grow cs;
          remFreeSpace =
            (if unfrozenFlexFactor < Fin 1
             then (let p = freeSpace * unfrozenFlexFactor
                   in if math_Abs p < math_Abs remFreeSpace0 then p else remFreeSpace0)
             else remFreeSpace0);
          cs1 =
            (if grow
             then map (\<lambda>c. if frozen c then c
                            else (let r = Grow (node c) / unfrozenFlexFactor
                                  in c\<lparr>mainSize := itemMainSize f c + r * remFreeSpace\<rparr>)) cs
             else (let sumScaledShrinkFactor =
                         fold (\<lambda>c s. if frozen c then s
                                      else s + itemMainSize f c * Shrink (node c)) cs (Fin 0)
                   in map (\<lambda>c. if frozen c then c
                                else (let scaledShrinkFactor = itemMainSize f c * Shrink (node c);
                                          r = scaledShrinkFactor / sumScaledShrinkFactor
                                      in c\<lparr>mainSize := itemMainSize f c
                                                           - r * math_Abs remFreeSpace\<rparr>)) cs))
      in map (\<lambda>c. c\<lparr>frozen := True\<rparr>) cs1)"

lemma freeze_all_frozen: "list_all frozen (map (\<lambda>c. c\<lparr>frozen := True\<rparr>) cs)"
  by (induction cs) simp_all

lemma flexIteration_frozen: "list_all frozen (flexIteration f w h grow freeSpace cs)"
  unfolding flexIteration_def Let_def
  by (cases "remainingFreeSpace f w h grow cs") (simp only: prod.case freeze_all_frozen)

function flexLoop ::
  "'a View_scheme \<Rightarrow> float64 \<Rightarrow> float64 \<Rightarrow> bool \<Rightarrow> float64 \<Rightarrow> element list \<Rightarrow> element list" where
  "flexLoop f w h grow freeSpace cs =
     (if list_all frozen cs then cs
      else flexLoop f w h grow freeSpace (flexIteration f w h grow freeSpace cs))"
  by pat_completeness auto
termination
proof (relation "measure (\<lambda>(f, w, h, grow, freeSpace, cs). length (filter (\<lambda>c. \<not> frozen c) cs))")
  show "wf (measure (\<lambda>(f :: 'a View_scheme, w :: float64, h :: float64, grow :: bool,
                       freeSpace :: float64, cs). length (filter (\<lambda>c. \<not> frozen c) cs)))"
    by simp
next
  fix f :: "'a View_scheme" and w h :: float64 and grow :: bool and freeSpace :: float64
    and cs :: "element list"
  assume open_child: "\<not> list_all frozen cs"
  have "filter (\<lambda>c. \<not> frozen c) (flexIteration f w h grow freeSpace cs) = []"
    using flexIteration_frozen [of f w h grow freeSpace cs]
    by (simp add: list_all_iff filter_empty_conv)
  moreover have "filter (\<lambda>c. \<not> frozen c) cs \<noteq> []"
    using open_child by (simp add: list_all_iff filter_empty_conv)
  ultimately show "((f, w, h, grow, freeSpace, flexIteration f w h grow freeSpace cs),
                    (f, w, h, grow, freeSpace, cs))
                   \<in> measure (\<lambda>(f, w, h, grow, freeSpace, cs).
                                 length (filter (\<lambda>c. \<not> frozen c) cs))"
    by simp
qed

definition resolveFlexibleLengths ::
  "'a View_scheme \<Rightarrow> float64 \<Rightarrow> float64 \<Rightarrow> flexLine \<Rightarrow> flexLine" where
  "resolveFlexibleLengths f w h line =
     (let grow = lineMainSize line < mainSize_m f w h;
          cs = map (freezeInflexible f grow) (lineChild line);
          freeSpace = initialFreeSpace f w h cs
      in line\<lparr>lineChild := flexLoop f w h grow freeSpace cs\<rparr>)"

subsection \<open>Cross sizes\<close>

definition hypotheticalCrossSize :: "'a View_scheme \<Rightarrow> flexLine \<Rightarrow> flexLine" where
  "hypotheticalCrossSize f line =
     line\<lparr>lineChild :=
       map (\<lambda>c. c\<lparr>crossMargin := crossMargin_m f (node c),
                    crossSize := crossSize_m f (width (node c)) (height (node c))\<rparr>)
           (lineChild line)\<rparr>"

definition lineCrossSizes :: "float64 \<Rightarrow> flexLine list \<Rightarrow> flexLine list" where
  "lineCrossSizes containerCrossSize lines =
     (if length lines = 1
      then lines[0 := (lines ! 0)\<lparr>lineCrossSize := containerCrossSize\<rparr>]
      else map (\<lambda>line. line\<lparr>lineCrossSize :=
                   fold (\<lambda>c mx. if mx < crossSize c then crossSize c + crossMargins c else mx)
                        (lineChild line) (Fin 0)\<rparr>) lines)"

fun stackLines :: "float64 \<Rightarrow> flexLine list \<Rightarrow> flexLine list \<times> float64" where
  "stackLines off [] = ([], off)"
| "stackLines off (line # lines) =
     (let (lines', off') = stackLines (off + lineCrossSize line) lines
      in (line\<lparr>lineCrossOffset := off\<rparr> # lines', off'))"

definition stretchLines ::
  "'a View_scheme \<Rightarrow> float64 \<Rightarrow> float64 \<Rightarrow> flexLine list \<Rightarrow> flexLine list" where
  "stretchLines f containerCrossSize off lines =
     (let remCrossSize = containerCrossSize - off
      in if AlignContent f = AlignContentStretch \<and> Fin 0 < remCrossSize
         then (let add = remCrossSize / float64_of_int (int (length lines))
               in map (\<lambda>(l, line).
                         line\<lparr>lineCrossOffset := lineCrossOffset line
                                                    + float64_of_int (int l) * add,
                              lineCrossSize := lineCrossSize line + add\<rparr>)
                      (enumerate 0 lines))
         else lines)"

definition stretchItems :: "'a View_scheme \<Rightarrow> flexLine \<Rightarrow> flexLine" where
  "stretchItems f line =
     line\<lparr>lineChild :=
       map (\<lambda>c. if AlignItems f = AlignItemStretch \<and> \<not> isCrossSizeFixed f (node c)
                    \<and> crossSize c < lineCrossSize line
                 then c\<lparr>crossSize := lineCrossSize line - crossMargins c\<rparr>
                 else c)
           (lineChild line)\<rparr>"

subsection \<open>Main-axis alignment\<close>

text \<open>The \<open>switch\<close> on \<open>f.Justify\<close>: the starting offset and the spacing of a line of
  \<open>n\<close> children with \<open>remFree\<close> left over. The divisor of space-between is
  \<open>float64(len(line.child)-1)\<close>.\<close>

definition justifyOffSpacing :: "Justify \<Rightarrow> float64 \<Rightarrow> nat \<Rightarrow> float64 \<times> float64" where
  "justifyOffSpacing j remFree n =
     (case j of
        JustifyStart \<Rightarrow> (Fin 0, Fin 0)
      | JustifyEnd \<Rightarrow> (remFree, Fin 0)
      | JustifyCenter \<Rightarrow> (remFree / Fin 2, Fin 0)
      | JustifySpaceBetween \<Rightarrow> (Fin 0, remFree / float64_of_int (int n - 1))
      | JustifySpaceAround \<Rightarrow>
          (let spacing = remFree / float64_of_int (int n) in (spacing / Fin 2, spacing)))"

fun placeMain :: "float64 \<Rightarrow> float64 \<Rightarrow> element list \<Rightarrow> element list" where
  "placeMain off spacing [] = []"
| "placeMain off spacing (c # cs) =
     c\<lparr>mainOffset := off + mainMargin c ! 0\<rparr>
       # placeMain (off + (spacing + mainSize c + mainMargins c)) spacing cs"

definition mainAxisAlignment :: "'a View_scheme \<Rightarrow> float64 \<Rightarrow> flexLine \<Rightarrow> flexLine" where
  "mainAxisAlignment f containerMainSize line =
     (let total = fold (\<lambda>c t. t + (mainSize c + mainMargins c)) (lineChild line) (Fin 0);
          remFree = containerMainSize - total;
          (off, spacing) = justifyOffSpacing (Justify f) remFree (length (lineChild line))
      in line\<lparr>lineChild := placeMain off spacing (lineChild line)\<rparr>)"

subsection \<open>Cross-axis alignment\<close>

definition crossAxisAlignment :: "'a View_scheme \<Rightarrow> flexLine \<Rightarrow> flexLine" where
  "crossAxisAlignment f line =
     line\<lparr>lineChild :=
       map (\<lambda>c. (let c1 = c\<lparr>crossOffset := lineCrossOffset line + crossMargin c ! 0\<rparr>
                  in if feq (crossSize c1) (lineCrossSize line) then c1
                     else (let diff = lineCrossSize line - crossSize c1 - crossMargins c1
                           in case AlignItems f of
                                AlignItemStart \<Rightarrow> c1
                              | AlignItemEnd \<Rightarrow>
                                  c1\<lparr>crossOffset := lineCrossOffset line + diff
                                                      + crossMargin c1 ! 0\<rparr>
                              | AlignItemCenter \<Rightarrow>
                                  c1\<lparr>crossOffset := lineCrossOffset line + diff / Fin 2
                                                      + crossMargin c1 ! 0\<rparr>
                              | AlignItemStretch \<Rightarrow> c1)))
           (lineChild line)\<rparr>"

definition alignContentOffSpacing :: "AlignContent \<Rightarrow> float64 \<Rightarrow> nat \<Rightarrow> float64 \<times> float64" where
  "alignContentOffSpacing a remFree n =
     (case a of
        AlignContentStart \<Rightarrow> (Fin 0, Fin 0)
      | AlignContentEnd \<Rightarrow> (remFree, Fin 0)
      | AlignContentCenter \<Rightarrow> (remFree / Fin 2, Fin 0)
      | AlignContentSpaceBetween \<Rightarrow> (Fin 0, remFree / float64_of_int (int n - 1))
      | AlignContentSpaceAround \<Rightarrow>
          (let spacing = remFree / float64_of_int (int n) in (spacing / Fin 2, spacing))
      | AlignContentStretch \<Rightarrow> (Fin 0, Fin 0))"

fun shiftLines :: "float64 \<Rightarrow> float64 \<Rightarrow> flexLine list \<Rightarrow> flexLine list" where
  "shiftLines off spacing [] = []"
| "shiftLines off spacing (line # lines) =
     line\<lparr>lineCrossOffset := lineCrossOffset line + off,
          lineChild := map (\<lambda>c. c\<lparr>crossOffset := crossOffset c + off\<rparr>) (lineChild line)\<rparr>
       # shiftLines (off + spacing) spacing lines"

definition alignLines :: "'a View_scheme \<Rightarrow> float64 \<Rightarrow> flexLine list \<Rightarrow> flexLine list" where
  "alignLines f containerCrossSize lines =
     (let crossSize' = lineCrossOffset (lines ! (length lines - 1))
                        + lineCrossSize (lines ! (length lines - 1));
          remFree = containerCrossSize - crossSize'
      in if Fin 0 < remFree
         then (let (off, spacing) = alignContentOffSpacing (AlignContent f) remFree (length lines)
               in if AlignContent f \<noteq> AlignContentStart
                  then shiftLines off spacing lines else lines)
         else lines)"

subsection \<open>Intrinsic sizes of the container\<close>

definition contentFlexFraction :: "element \<Rightarrow> float64" where
  "contentFlexFraction c =
     (let maxContentDiff = mainSize c - flexBaseSize c
      in if Fin 0 < maxContentDiff
         then maxContentDiff / math_Max (Fin 1) (Grow (node c))
         else maxContentDiff / math_Max (Fin 1) (Shrink (node c) * mainSize c))"

definition lineIntrinsicMain :: "flexLine \<Rightarrow> flexLine \<times> float64" where
  "lineIntrinsicMain line =
     (let cs = map (\<lambda>c. c\<lparr>maxContentFlexFraction := contentFlexFraction c\<rparr>) (lineChild line);
          fraction = fold (\<lambda>c m. if m < maxContentFlexFraction c
                                   then maxContentFlexFraction c else m) cs (Fin 0);
          maxMainSize =
            fold (\<lambda>c m. (let mainSize' =
                               (if Fin 0 < fraction
                                then flexBaseSize c + Grow (node c) * fraction
                                else flexBaseSize c - Shrink (node c) * mainSize c * fraction)
                          in if m < mainSize' then mainSize' else m)) cs (Fin 0)
      in (line\<lparr>lineChild := cs\<rparr>, maxMainSize))"

fun intrinsicMain :: "float64 \<Rightarrow> flexLine list \<Rightarrow> flexLine list \<times> float64" where
  "intrinsicMain intrinsicMainSize [] = ([], intrinsicMainSize)"
| "intrinsicMain intrinsicMainSize (line # lines) =
     (let (line', maxMainSize) = lineIntrinsicMain line;
          (lines', total) = intrinsicMain (intrinsicMainSize + maxMainSize) lines
      in (line' # lines', total))"

definition lineIntrinsicCross :: "flexLine \<Rightarrow> float64 \<Rightarrow> float64" where
  "lineIntrinsicCross line intrinsicCrossSize =
     (let s1 = (if intrinsicCrossSize < lineCrossOffset line + lineCrossSize line
                then lineCrossOffset line + lineCrossSize line else intrinsicCrossSize);
          (mn, mx) = fold (\<lambda>c (mn, mx).
                             (let mn1 = (if crossOffset c < mn then crossOffset c else mn)
                              in (mn1, if feq mx (Fin (- 1)) \<or> mx < crossOffset c + crossSize c
                                       then crossOffset c + crossSize c else mx)))
                          (lineChild line) (PInf, Fin (- 1))
      in if s1 < mx - mn then mx - mn else s1)"

definition intrinsicCross :: "flexLine list \<Rightarrow> float64" where
  "intrinsicCross lines = fold lineIntrinsicCross lines (Fin 0)"

subsection \<open>Frames\<close>

definition commitChild :: "bool \<Rightarrow> 'a View_scheme \<Rightarrow> element \<Rightarrow> element" where
  "commitChild d f c =
     (let b = (case Direction f of
                 Row \<Rightarrow> Rect (mainOffset c) (crossOffset c)
                           (mainOffset c + mainSize c) (crossOffset c + crossSize c)
               | Column \<Rightarrow> Rect (crossOffset c) (mainOffset c)
                           (crossOffset c + crossSize c) (mainOffset c + mainSize c))
      in c\<lparr>node := setFrame d (Add b (MinP (frame f))) ((node c)\<lparr>bounds := b\<rparr>)\<rparr>)"

definition commitLine :: "bool \<Rightarrow> 'a View_scheme \<Rightarrow> flexLine \<Rightarrow> flexLine" where
  "commitLine d f line = line\<lparr>lineChild := map (commitChild d f) (lineChild line)\<rparr>"

text \<open>The children as the pass leaves them: every element's child at its position.\<close>

definition writeBack :: "flexLine list \<Rightarrow> child list \<Rightarrow> child list" where
  "writeBack lines cs = fold (\<lambda>c cs. cs[idx c := node c]) (concat (map lineChild lines)) cs"

subsection \<open>The layout pass\<close>

text \<open>The lines of a container, as the pass has them right before the frames are
  stored, with the container's intrinsic main and cross size.\<close>

definition layoutLines ::
  "'a View_scheme \<Rightarrow> float64 \<Rightarrow> float64 \<Rightarrow> element list \<Rightarrow> flexLine list \<times> float64 \<times> float64" where
  "layoutLines f w h es =
     (let containerMainSize = mainSize_m f w h;
          containerCrossSize = crossSize_m f w h;
          es1 = resolvePercent f w h es;
          lines1 = collectLines f containerMainSize es1;
          lines2 = map (resolveFlexibleLengths f w h) lines1;
          lines3 = map (hypotheticalCrossSize f) lines2;
          lines4 = lineCrossSizes containerCrossSize lines3;
          (lines5, off) = stackLines (Fin 0) lines4;
          lines6 = stretchLines f containerCrossSize off lines5;
          lines7 = map (stretchItems f) lines6;
          lines8 = map (mainAxisAlignment f containerMainSize) lines7;
          lines9 = map (crossAxisAlignment f) lines8;
          lines10 = alignLines f containerCrossSize lines9;
          (lines11, intrinsicMainSize) = intrinsicMain (Fin 0) lines10
      in (lines11, intrinsicMainSize, intrinsicCross lines11))"

definition layout ::
  "bool \<Rightarrow> 'a View_scheme \<Rightarrow> float64 \<Rightarrow> float64 \<Rightarrow> child list \<Rightarrow> 'a View_scheme \<times> child list" where
  "layout d f w h cs =
     (let (cs1, es) = collectChildren f 0 cs;
          (lines, intrinsicMainSize, intrinsicCrossSize) = layoutLines f w h es;
          f1 = setMainSize f intrinsicMainSize;
          f2 = setCrossSize f1 intrinsicCrossSize
      in (f2, writeBack (map (commitLine d f2) lines) cs1))"

section \<open>The tick: startLayout and Update\<close>

text \<open>The children of a node with the items a layout pass returned for them.\<close>

definition setItems :: "ViewTree list \<Rightarrow> child list \<Rightarrow> ViewTree list" where
  "setItems cs items = map (\<lambda>(c, i). ViewNode i (subviews c)) (zip cs items)"

fun startLayout :: "bool \<Rightarrow> ViewTree \<Rightarrow> ViewTree" where
  "startLayout d (ViewNode v cs) =
     (let v1 = (if \<not> hasParent v
                then v\<lparr>frame := Rect (Left v) (Top v) (Left v + Width v) (Top v + Height v)\<rparr>
                else v);
          cs1 = map (\<lambda>c. if Position (item c) = PositionStatic then startLayout d c else c) cs;
          (v2, items) = layout d v1 (Dx (frame v1)) (Dy (frame v1)) (map item cs1)
      in ViewNode (v2\<lparr>isDirty := False\<rparr>) (setItems cs1 items))"

lemma length_collectChildren: "length (fst (collectChildren f i cs)) = length cs"
proof (induction cs arbitrary: i)
  case Nil
  then show ?case by simp
next
  case (Cons c cs)
  obtain cs' es where r: "collectChildren f (Suc i) cs = (cs', es)"
    by (cases "collectChildren f (Suc i) cs")
  have "length cs' = length cs"
    using Cons.IH [of "Suc i"] r by simp
  then show ?case
    using r by (simp add: Let_def)
qed

lemma length_writeBack: "length (writeBack lines cs) = length cs"
proof -
  have "length (fold (\<lambda>c cs. cs[idx c := node c]) es cs) = length cs" for es
    by (induction es arbitrary: cs) simp_all
  then show ?thesis by (simp add: writeBack_def)
qed

lemma length_layout: "length (snd (layout d f w h cs)) = length cs"
proof -
  obtain cs1 es where c: "collectChildren f 0 cs = (cs1, es)"
    by (cases "collectChildren f 0 cs")
  have "length cs1 = length cs"
    using length_collectChildren [of f 0 cs] c by simp
  then show ?thesis
    by (simp add: layout_def c Let_def length_writeBack split: prod.splits)
qed

lemma size_setItems:
  "length items = length cs \<Longrightarrow> size_list size (setItems cs items) = size_list size cs"
proof (induction cs arbitrary: items)
  case Nil
  then show ?case by (simp add: setItems_def)
next
  case (Cons c cs)
  then obtain i items' where "items = i # items'"
    by (cases items) simp_all
  with Cons show ?case
    by (cases c) (simp add: setItems_def)
qed

lemma size_startLayout: "size (startLayout d t) = size t"
proof (induction d t rule: startLayout.induct)
  case (1 d v cs)
  define v1 where "v1 = (if \<not> hasParent v
      then v\<lparr>frame := Rect (Left v) (Top v) (Left v + Width v) (Top v + Height v)\<rparr> else v)"
  define cs1 where
    "cs1 = map (\<lambda>c. if Position (item c) = PositionStatic then startLayout d c else c) cs"
  obtain v2 items where l: "layout d v1 (Dx (frame v1)) (Dy (frame v1)) (map item cs1) = (v2, items)"
    by (cases "layout d v1 (Dx (frame v1)) (Dy (frame v1)) (map item cs1)")
  have len: "length items = length cs1"
    using length_layout [of d v1 "Dx (frame v1)" "Dy (frame v1)" "map item cs1"] l by simp
  have "map size cs1 = map size cs"
    unfolding cs1_def using "1.IH" by (induction cs) simp_all
  then have "size_list size cs1 = size_list size cs"
    using map_eq_imp_length_eq [of size cs1 size cs] by (simp add: size_list_conv_sum_list)
  moreover have "startLayout d (ViewNode v cs) = ViewNode (v2\<lparr>isDirty := False\<rparr>) (setItems cs1 items)"
    using l by (simp add: v1_def [symmetric] cs1_def [symmetric] Let_def del: layout_def)
  ultimately show ?case
    using size_setItems [OF len] by simp
qed

text \<open>
  \<open>Update\<close>: the handlers and the event processing are callbacks of the application and
  take no part in the layout; they are left out, so the model is a tick without a
  mutation by a handler.
\<close>

function Update :: "bool \<Rightarrow> ViewTree \<Rightarrow> ViewTree" where
  "Update d t =
     (let t1 = (if isDirty (item t) then startLayout d t else t)
      in ViewNode (item t1) (map (Update d) (subviews t1)))"
  by pat_completeness auto
termination
proof (relation "measure (\<lambda>(d, t). size t)")
  show "wf (measure (\<lambda>(d :: bool, t :: ViewTree). size t))"
    by simp
next
  fix d :: bool and t t1 c :: ViewTree
  assume t1: "t1 = (if isDirty (item t) then startLayout d t else t)"
    and c: "c \<in> set (subviews t1)"
  have "size t1 = size t"
    using t1 by (simp add: size_startLayout)
  moreover have "size c < size t1"
    using c by (cases t1) (auto simp: less_Suc_eq_le size_list_estimation')
  ultimately show "((d, c), (d, t)) \<in> measure (\<lambda>(d, t). size t)"
    by simp
qed

declare Update.simps [simp del]

text \<open>\<open>UpdateWithSize\<close>: the root takes a new size and is marked dirty when it differs.\<close>

definition UpdateWithSize :: "bool \<Rightarrow> float64 \<Rightarrow> float64 \<Rightarrow> ViewTree \<Rightarrow> ViewTree" where
  "UpdateWithSize d w h t =
     (let v = item t;
          v1 = (if \<not> hasParent v \<and> (fne (Width v) w \<or> fne (Height v) h)
                then v\<lparr>Height := h, Width := w, isDirty := True\<rparr> else v)
      in Update d (ViewNode v1 (subviews t)))"

text \<open>A tree in which no view is dirty.\<close>

fun allClean :: "ViewTree \<Rightarrow> bool" where
  "allClean (ViewNode v cs) = (\<not> isDirty v \<and> list_all allClean cs)"

section \<open>The node operations on a store\<close>

text \<open>
  Views are shared through pointers: a view is in the child list of its parent and
  points back to it. The operations that build and change the tree are modelled on a
  store from addresses to views. A non-nil pointer of Go always points to a view, so the
  store is total; the nil pointer is \<open>None\<close>. The child list holds the \<open>item\<close> pointers of
  the \<open>child\<close> wrappers, in order.
\<close>

type_synonym ref = nat

record ViewObj = View +
  children :: "ref list"
  parent :: "ref option"

type_synonym store = "ref \<Rightarrow> ViewObj"

datatype panic = AlreadyAdded | NilDereference

definition Layout :: "ref \<Rightarrow> store \<Rightarrow> panic + store" where
  "Layout v h =
     (let h1 = h(v := (h v)\<lparr>isDirty := True\<rparr>)
      in if hasParent (h1 v)
         then (case parent (h1 v) of
                 None \<Rightarrow> Inl NilDereference
               | Some p \<Rightarrow> Inr (h1(p := (h1 p)\<lparr>isDirty := True\<rparr>)))
         else Inr h1)"

definition addChild :: "ref \<Rightarrow> ref \<Rightarrow> store \<Rightarrow> store" where
  "addChild v cv h =
     (let h1 = h(v := (h v)\<lparr>children := children (h v) @ [cv]\<rparr>);
          h2 = h1(v := (h1 v)\<lparr>isDirty := True\<rparr>);
          h3 = h2(cv := (h2 cv)\<lparr>hasParent := True\<rparr>)
      in h3(cv := (h3 cv)\<lparr>parent := Some v\<rparr>))"

fun AddChild :: "ref \<Rightarrow> ref list \<Rightarrow> store \<Rightarrow> store" where
  "AddChild v [] h = h"
| "AddChild v (vv # views) h = AddChild v views (addChild v vv h)"

definition AddTo :: "ref \<Rightarrow> ref \<Rightarrow> store \<Rightarrow> panic + store" where
  "AddTo v parent' h =
     (if hasParent (h v) then Inl AlreadyAdded else Inr (AddChild parent' [v] h))"

text \<open>\<open>RemoveChild\<close> searches the child list from the front and removes the first match.\<close>

fun remove_at :: "nat \<Rightarrow> 'a list \<Rightarrow> 'a list" where
  "remove_at i xs = take i xs @ drop (Suc i) xs"

fun find_child :: "ref \<Rightarrow> ref list \<Rightarrow> nat \<Rightarrow> nat option" where
  "find_child cv [] i = None"
| "find_child cv (c # cs) i = (if c = cv then Some i else find_child cv cs (Suc i))"

definition RemoveChild :: "ref \<Rightarrow> ref \<Rightarrow> store \<Rightarrow> bool \<times> store" where
  "RemoveChild v cv h =
     (case find_child cv (children (h v)) 0 of
        None \<Rightarrow> (False, h)
      | Some i \<Rightarrow>
          (let h1 = h(v := (h v)\<lparr>children := remove_at i (children (h v))\<rparr>);
               h2 = h1(v := (h1 v)\<lparr>isDirty := True\<rparr>);
               h3 = h2(cv := (h2 cv)\<lparr>hasParent := False\<rparr>)
           in (True, h3(cv := (h3 cv)\<lparr>parent := None\<rparr>))))"

fun clear_parents :: "ref list \<Rightarrow> store \<Rightarrow> store" where
  "clear_parents [] h = h"
| "clear_parents (c # cs) h =
     clear_parents cs (h(c := (h c)\<lparr>hasParent := False, parent := None\<rparr>))"

definition RemoveAll :: "ref \<Rightarrow> store \<Rightarrow> store" where
  "RemoveAll v h =
     (let h1 = h(v := (h v)\<lparr>isDirty := True\<rparr>);
          h2 = clear_parents (children (h1 v)) h1
      in h2(v := (h2 v)\<lparr>children := []\<rparr>))"

definition PopChild :: "ref \<Rightarrow> store \<Rightarrow> ref option \<times> store" where
  "PopChild v h =
     (if length (children (h v)) = 0 then (None, h)
      else
        (let c = children (h v) ! (length (children (h v)) - 1);
             h1 = h(v := (h v)\<lparr>children := take (length (children (h v)) - 1) (children (h v))\<rparr>);
             h2 = h1(v := (h1 v)\<lparr>isDirty := True\<rparr>);
             h3 = h2(c := (h2 c)\<lparr>hasParent := False\<rparr>)
         in (Some c, h3(c := (h3 c)\<lparr>parent := None\<rparr>))))"

subsection \<open>The setters\<close>

definition SetLeft :: "ref \<Rightarrow> float64 \<Rightarrow> store \<Rightarrow> panic + store" where
  "SetLeft v left h = Layout v (h(v := (h v)\<lparr>Left := left\<rparr>))"

definition SetRight :: "ref \<Rightarrow> float64 \<Rightarrow> store \<Rightarrow> panic + store" where
  "SetRight v right h = Layout v (h(v := (h v)\<lparr>Right := Some right\<rparr>))"

definition SetTop :: "ref \<Rightarrow> float64 \<Rightarrow> store \<Rightarrow> panic + store" where
  "SetTop v top' h = Layout v (h(v := (h v)\<lparr>Top := top'\<rparr>))"

definition SetBottom :: "ref \<Rightarrow> float64 \<Rightarrow> store \<Rightarrow> panic + store" where
  "SetBottom v bottom h = Layout v (h(v := (h v)\<lparr>Bottom := Some bottom\<rparr>))"

definition SetWidth :: "ref \<Rightarrow> float64 \<Rightarrow> store \<Rightarrow> panic + store" where
  "SetWidth v w h = Layout v (h(v := (h v)\<lparr>Width := w\<rparr>))"

definition SetHeight :: "ref \<Rightarrow> float64 \<Rightarrow> store \<Rightarrow> panic + store" where
  "SetHeight v ht h = Layout v (h(v := (h v)\<lparr>Height := ht\<rparr>))"

definition SetMarginLeft :: "ref \<Rightarrow> float64 \<Rightarrow> store \<Rightarrow> panic + store" where
  "SetMarginLeft v marginLeft h = Layout v (h(v := (h v)\<lparr>MarginLeft := marginLeft\<rparr>))"

definition SetMarginTop :: "ref \<Rightarrow> float64 \<Rightarrow> store \<Rightarrow> panic + store" where
  "SetMarginTop v marginTop h = Layout v (h(v := (h v)\<lparr>MarginTop := marginTop\<rparr>))"

definition SetMarginRight :: "ref \<Rightarrow> float64 \<Rightarrow> store \<Rightarrow> panic + store" where
  "SetMarginRight v marginRight h = Layout v (h(v := (h v)\<lparr>MarginRight := marginRight\<rparr>))"

definition SetMarginBottom :: "ref \<Rightarrow> float64 \<Rightarrow> store \<Rightarrow> panic + store" where
  "SetMarginBottom v marginBottom h =
     Layout v (h(v := (h v)\<lparr>MarginBottom := marginBottom\<rparr>))"

definition SetPosition :: "ref \<Rightarrow> Position \<Rightarrow> store \<Rightarrow> panic + store" where
  "SetPosition v position h = Layout v (h(v := (h v)\<lparr>Position := position\<rparr>))"

definition SetDirection :: "ref \<Rightarrow> Direction \<Rightarrow> store \<Rightarrow> panic + store" where
  "SetDirection v direction h = Layout v (h(v := (h v)\<lparr>Direction := direction\<rparr>))"

definition SetWrap :: "ref \<Rightarrow> FlexWrap \<Rightarrow> store \<Rightarrow> panic + store" where
  "SetWrap v wrap h = Layout v (h(v := (h v)\<lparr>Wrap := wrap\<rparr>))"

definition SetJustify :: "ref \<Rightarrow> Justify \<Rightarrow> store \<Rightarrow> panic + store" where
  "SetJustify v justify h = Layout v (h(v := (h v)\<lparr>Justify := justify\<rparr>))"

definition SetAlignItems :: "ref \<Rightarrow> AlignItem \<Rightarrow> store \<Rightarrow> panic + store" where
  "SetAlignItems v alignItems h = Layout v (h(v := (h v)\<lparr>AlignItems := alignItems\<rparr>))"

definition SetAlignContent :: "ref \<Rightarrow> AlignContent \<Rightarrow> store \<Rightarrow> panic + store" where
  "SetAlignContent v alignContent h =
     Layout v (h(v := (h v)\<lparr>AlignContent := alignContent\<rparr>))"

definition SetGrow :: "ref \<Rightarrow> float64 \<Rightarrow> store \<Rightarrow> panic + store" where
  "SetGrow v grow h = Layout v (h(v := (h v)\<lparr>Grow := grow\<rparr>))"

definition SetShrink :: "ref \<Rightarrow> float64 \<Rightarrow> store \<Rightarrow> panic + store" where
  "SetShrink v shrink h = Layout v (h(v := (h v)\<lparr>Shrink := shrink\<rparr>))"

definition SetDisplay :: "ref \<Rightarrow> Display \<Rightarrow> store \<Rightarrow> panic + store" where
  "SetDisplay v display h = Layout v (h(v := (h v)\<lparr>Display := display\<rparr>))"

definition SetHidden :: "ref \<Rightarrow> bool \<Rightarrow> store \<Rightarrow> panic + store" where
  "SetHidden v hidden h = Layout v (h(v := (h v)\<lparr>Hidden := hidden\<rparr>))"

subsection \<open>Stores for the examples\<close>

definition zeroViewObj :: ViewObj where
  "zeroViewObj = View.extend zeroView \<lparr>children = [], parent = None\<rparr>"

text \<open>A store of freshly constructed views.\<close>

definition freshStore :: store where
  "freshStore = (\<lambda>_. zeroViewObj)"

text \<open>
  What the spec asks of a setter, from the store \<open>h\<close> before the call to the store \<open>h'\<close>
  after it: the node \<open>v\<close> is \<open>written\<close> (its value with the attribute stored) with the dirty
  flag set, its parent \<open>p\<close>, when it has one, has the dirty flag set and is otherwise as
  before, and every other view is as before.
\<close>

definition setterPost :: "store \<Rightarrow> ref \<Rightarrow> ref \<Rightarrow> ViewObj \<Rightarrow> store \<Rightarrow> bool" where
  "setterPost h v p written h' =
     (h' v = written\<lparr>isDirty := True\<rparr>
      \<and> (if hasParent (h v)
         then isDirty (h' p) \<and> (if p = v then True else h' p = (h p)\<lparr>isDirty := True\<rparr>)
              \<and> (\<forall>u. if u = v \<or> u = p then True else h' u = h u)
         else (\<forall>u. if u = v then True else h' u = h u)))"

section \<open>Notions for the results\<close>

text \<open>The part of an element that the pass writes back: the position and the value of
  its child, for one element and for the elements of every line.\<close>

definition core :: "element \<Rightarrow> nat \<times> child" where
  "core c = (idx c, node c)"

definition lineCores :: "flexLine list \<Rightarrow> (nat \<times> child) list list" where
  "lineCores lines = map (\<lambda>line. map core (lineChild line)) lines"

text \<open>A flow child is neither hidden nor absolute.\<close>

definition isFlow :: "'a View_scheme \<Rightarrow> bool" where
  "isFlow c = (Display c \<noteq> DisplayNone \<and> Position c \<noteq> PositionAbsolute)"

text \<open>A child as the first loop of the pass leaves it.\<close>

definition leftChild :: "'a View_scheme \<Rightarrow> child \<Rightarrow> child" where
  "leftChild f c =
     (if Display c = DisplayNone then c
      else if Position c = PositionAbsolute
      then c\<lparr>frame := absoluteBounds (frame f) c, bounds := absoluteBounds (frame f) c,
             absolute := True\<rparr>
      else c\<lparr>absolute := False\<rparr>)"

text \<open>The free space of a row, in the spec's words: the container's width less the
  explicit width and the horizontal margins of every flow child.\<close>

definition rowFreeSpace :: "float64 \<Rightarrow> child list \<Rightarrow> float64" where
  "rowFreeSpace w cs =
     fold (\<lambda>c r. r - (Width c + MarginLeft c + MarginRight c)) (filter isFlow cs) w"

subsection \<open>The trees of the examples\<close>

text \<open>A freshly constructed view without children, after \<open>AddChild\<close> has added it to a
  parent. The roots below are dirty, as \<open>AddChild\<close> leaves the parent.\<close>

definition attached :: "child \<Rightarrow> ViewTree" where
  "attached v = ViewNode (v\<lparr>hasParent := True\<rparr>) []"

definition frames :: "ViewTree \<Rightarrow> Rectangle list" where
  "frames t = map (\<lambda>c. frame (item c)) (subviews t)"

definition rect :: "real \<Rightarrow> real \<Rightarrow> real \<Rightarrow> real \<Rightarrow> Rectangle" where
  "rect x0 y0 x1 y1 = \<lparr>MinP = \<lparr>X = Fin x0, Y = Fin y0\<rparr>, MaxP = \<lparr>X = Fin x1, Y = Fin y1\<rparr>\<rparr>"

definition absoluteRoot :: child where
  "absoluteRoot = zeroChild\<lparr>Width := Fin 100, Height := Fin 100, isDirty := True\<rparr>"

definition absoluteItem :: child where
  "absoluteItem = zeroChild\<lparr>Position := PositionAbsolute, Width := Fin 10, Height := Fin 10,
     Right := Some (Fin 40), Bottom := Some (Fin 50), hasParent := True\<rparr>"

definition absoluteExample :: ViewTree where
  "absoluteExample = ViewNode absoluteRoot [ViewNode absoluteItem []]"

definition wrapRoot :: child where
  "wrapRoot = zeroChild\<lparr>Width := Fin 200, Height := Fin 200, Direction := Row,
     Justify := JustifyStart, AlignItems := AlignItemStart, Wrap := FlexWrap.Wrap,
     isDirty := True\<rparr>"

definition wrapExample :: ViewTree where
  "wrapExample = ViewNode wrapRoot
     [attached (zeroChild\<lparr>Width := Fin 100, Height := Fin 100\<rparr>),
      attached (zeroChild\<lparr>Width := Fin 100, Height := Fin 100\<rparr>),
      attached (zeroChild\<lparr>Width := Fin 100, Height := Fin 100\<rparr>)]"

definition growExample :: "real \<Rightarrow> ViewTree" where
  "growExample H = ViewNode (zeroChild\<lparr>Width := Fin 1000, Height := Fin H, isDirty := True\<rparr>)
     [attached (zeroChild\<lparr>Grow := Fin 1\<rparr>), attached (zeroChild\<lparr>Grow := Fin 1\<rparr>)]"

definition percentRoot :: child where
  "percentRoot = zeroChild\<lparr>Width := Fin 500, Height := Fin 500, Direction := Row,
     Justify := JustifyEnd, AlignItems := AlignItemEnd, isDirty := True,
     frame := rect 0 0 500 500\<rparr>"

definition percentItems :: "child list" where
  "percentItems = [zeroChild\<lparr>WidthInPct := Fin 100, Height := Fin 100, hasParent := True\<rparr>,
                   zeroChild\<lparr>Width := Fin 50, Height := Fin 100, hasParent := True\<rparr>]"

definition percentExample :: ViewTree where
  "percentExample = ViewNode (percentRoot\<lparr>frame := zeroRect\<rparr>)
                      (map (\<lambda>c. ViewNode c []) percentItems)"

text \<open>The flow children of the wrap example as the pass of the container finds them, and
  the positions of the children of each line.\<close>

definition wrapItems :: "child list" where
  "wrapItems = [zeroChild\<lparr>Width := Fin 100, Height := Fin 100, hasParent := True\<rparr>,
                zeroChild\<lparr>Width := Fin 100, Height := Fin 100, hasParent := True\<rparr>,
                zeroChild\<lparr>Width := Fin 100, Height := Fin 100, hasParent := True\<rparr>]"

definition lineIndices :: "flexLine list \<Rightarrow> nat list list" where
  "lineIndices lines = map (\<lambda>line. map idx (lineChild line)) lines"

text \<open>Two children for a wrapping row 200 wide: the first without an explicit width, the
  second 300 wide.\<close>

definition wideItems :: "child list" where
  "wideItems = [zeroChild\<lparr>Height := Fin 100, hasParent := True\<rparr>,
                zeroChild\<lparr>Width := Fin 300, Height := Fin 100, hasParent := True\<rparr>]"

text \<open>A single 50 by 50 child with a left margin of 3 in a row 100 wide under
  space-between.\<close>

definition spaceBetweenExample :: ViewTree where
  "spaceBetweenExample =
     ViewNode (zeroChild\<lparr>Width := Fin 100, Height := Fin 100, Justify := JustifySpaceBetween,
                         AlignItems := AlignItemStart, isDirty := True\<rparr>)
       [attached (zeroChild\<lparr>Width := Fin 50, Height := Fin 50, MarginLeft := Fin 3\<rparr>)]"

text \<open>The sum of a list of floats, from the left, for the sums of the spec's formulas.\<close>

definition sumList :: "float64 list \<Rightarrow> float64" where
  "sumList xs = fold (\<lambda>x s. s + x) xs (Fin 0)"

text \<open>The grow example with a child 100 wide inside its first child.\<close>

definition nestedGrowExample :: ViewTree where
  "nestedGrowExample =
     ViewNode (zeroChild\<lparr>Width := Fin 1000, Height := Fin 1000, isDirty := True\<rparr>)
       [ViewNode (zeroChild\<lparr>Grow := Fin 1, isDirty := True, hasParent := True\<rparr>)
          [attached (zeroChild\<lparr>Width := Fin 100\<rparr>)],
        attached (zeroChild\<lparr>Grow := Fin 1\<rparr>)]"

text \<open>A line of two unfrozen elements without margins: the first with the explicit width
  \<open>b\<close> and the grow factor \<open>g1\<close>, the second without a width and with the grow factor
  \<open>g2\<close>.\<close>

definition growLine :: "real \<Rightarrow> real \<Rightarrow> real \<Rightarrow> flexLine" where
  "growLine b g1 g2 =
     zeroLine\<lparr>lineMainSize := Fin b,
              lineChild := [(newElement zeroChild 0 (zeroChild\<lparr>Width := Fin b, Grow := Fin g1\<rparr>))
                              \<lparr>mainMargin := [Fin 0, Fin 0]\<rparr>,
                            (newElement zeroChild 1 (zeroChild\<lparr>Grow := Fin g2\<rparr>))
                              \<lparr>mainMargin := [Fin 0, Fin 0]\<rparr>]\<rparr>"

section \<open>Results for the geometry\<close>

text \<open>
  C9. For all real coordinates x0, y0, x1, y1 the constructor \<open>Rect\<close> returns a rectangle
  with Min.X \<open>\<le>\<close> Max.X and Min.Y \<open>\<le>\<close> Max.Y, whose X coordinates are the smaller and the
  larger of x0, x1 and whose Y coordinates are the smaller and the larger of y0, y1,
  whatever the order of the arguments. \<open>Rect\<close> is a total function: it has no failing
  branch.
\<close>

theorem Rect_normalized:
  "Rect (Fin x0) (Fin y0) (Fin x1) (Fin y1) =
     \<lparr>MinP = \<lparr>X = Fin (min x0 x1), Y = Fin (min y0 y1)\<rparr>,
      MaxP = \<lparr>X = Fin (max x0 x1), Y = Fin (max y0 y1)\<rparr>\<rparr>
   \<and> X (MinP (Rect (Fin x0) (Fin y0) (Fin x1) (Fin y1)))
       \<le> X (MaxP (Rect (Fin x0) (Fin y0) (Fin x1) (Fin y1)))
   \<and> Y (MinP (Rect (Fin x0) (Fin y0) (Fin x1) (Fin y1)))
       \<le> Y (MaxP (Rect (Fin x0) (Fin y0) (Fin x1) (Fin y1)))"
  by (auto simp: Rect_def less_eq_float64_def min_def max_def)

section \<open>Facts about the layout pass\<close>

text \<open>Every step after the percentages keeps the elements of each line, their positions
  and the values of their children; the steps change the other fields of the elements.\<close>

lemma lineCores_map:
  "(\<And>line. map core (lineChild (p line)) = map core (lineChild line)) \<Longrightarrow>
   lineCores (map p lines) = lineCores lines"
  by (simp add: lineCores_def)

lemma core_freezeInflexible: "core (freezeInflexible f grow c) = core c"
  by (simp add: freezeInflexible_def core_def)

lemma core_flexIteration: "map core (flexIteration f w h grow freeSpace cs) = map core cs"
  unfolding flexIteration_def Let_def
  by (cases "remainingFreeSpace f w h grow cs") (simp add: core_def comp_def)

lemma core_flexLoop: "map core (flexLoop f w h grow freeSpace cs) = map core cs"
proof (induction f w h grow freeSpace cs rule: flexLoop.induct)
  case (1 f w h grow freeSpace cs)
  show ?case
  proof (cases "list_all frozen cs")
    case True
    then show ?thesis by simp
  next
    case False
    then show ?thesis
      using 1 by (simp add: core_flexIteration)
  qed
qed

lemma core_resolveFlexibleLengths:
  "map core (lineChild (resolveFlexibleLengths f w h line)) = map core (lineChild line)"
  by (simp add: resolveFlexibleLengths_def Let_def core_flexLoop comp_def core_freezeInflexible del: flexLoop.simps)

lemma core_hypotheticalCrossSize:
  "map core (lineChild (hypotheticalCrossSize f line)) = map core (lineChild line)"
  by (simp add: hypotheticalCrossSize_def core_def comp_def)

lemma lineCores_lineCrossSizes: "lineCores (lineCrossSizes ccs lines) = lineCores lines"
proof (cases "length lines = 1")
  case True
  then obtain l where "lines = [l]"
    by (cases lines) simp_all
  then show ?thesis
    by (simp add: lineCrossSizes_def lineCores_def)
next
  case False
  then show ?thesis
    by (simp add: lineCrossSizes_def lineCores_def)
qed

lemma lineCores_stackLines: "lineCores (fst (stackLines off lines)) = lineCores lines"
  by (induction lines arbitrary: off) (simp_all add: lineCores_def case_prod_beta)

lemma lineCores_stretchLines: "lineCores (stretchLines f ccs off lines) = lineCores lines"
proof -
  have "map (\<lambda>line. map core (lineChild line)) (map (\<lambda>(l, line). g l line) (enumerate n lines))
        = map (\<lambda>line. map core (lineChild line)) lines"
    if "\<And>l line. lineChild (g l line) = lineChild line" for g :: "nat \<Rightarrow> flexLine \<Rightarrow> flexLine" and n
    using that by (induction lines arbitrary: n) simp_all
  then show ?thesis
    by (simp add: stretchLines_def lineCores_def Let_def)
qed

lemma core_stretchItems:
  "map core (lineChild (stretchItems f line)) = map core (lineChild line)"
  by (simp add: stretchItems_def core_def comp_def)

lemma core_placeMain: "map core (placeMain off spacing cs) = map core cs"
  by (induction cs arbitrary: off) (simp_all add: core_def)

lemma core_mainAxisAlignment:
  "map core (lineChild (mainAxisAlignment f cms line)) = map core (lineChild line)"
  by (simp add: mainAxisAlignment_def Let_def core_placeMain split: prod.splits)

lemma core_crossAxisAlignment:
  "map core (lineChild (crossAxisAlignment f line)) = map core (lineChild line)"
  by (simp add: crossAxisAlignment_def Let_def core_def comp_def split: AlignItem.splits)

lemma lineCores_shiftLines: "lineCores (shiftLines off spacing lines) = lineCores lines"
  by (induction lines arbitrary: off) (simp_all add: lineCores_def core_def comp_def)

lemma lineCores_alignLines: "lineCores (alignLines f ccs lines) = lineCores lines"
  by (simp add: alignLines_def Let_def lineCores_shiftLines split: prod.splits)

lemma core_lineIntrinsicMain:
  "map core (lineChild (fst (lineIntrinsicMain line))) = map core (lineChild line)"
  by (simp add: lineIntrinsicMain_def Let_def core_def comp_def)

lemma lineCores_intrinsicMain: "lineCores (fst (intrinsicMain s lines)) = lineCores lines"
proof (induction lines arbitrary: s)
  case Nil
  then show ?case by simp
next
  case (Cons line lines)
  obtain line' m where l: "lineIntrinsicMain line = (line', m)"
    by (cases "lineIntrinsicMain line")
  obtain lines' t where r: "intrinsicMain (s + m) lines = (lines', t)"
    by (cases "intrinsicMain (s + m) lines")
  have "map core (lineChild line') = map core (lineChild line)"
    using core_lineIntrinsicMain [of line] l by simp
  moreover have "lineCores lines' = lineCores lines"
    using Cons.IH [of "s + m"] r by simp
  ultimately show ?case
    using l r by (simp add: lineCores_def)
qed

lemma core_wrapLines:
  "concat (lineCores (fst (wrapLines f cms cs lines line)))
     @ map core (lineChild (snd (wrapLines f cms cs lines line)))
   = concat (lineCores lines) @ map core (lineChild line) @ map core cs"
proof (induction cs arbitrary: lines line)
  case Nil
  then show ?case by simp
next
  case (Cons c cs)
  then show ?case
    by (simp add: Let_def lineCores_def zeroLine_def core_def)
qed

lemma wrapLines_running_line:
  "cs \<noteq> [] \<or> lineChild line \<noteq> [] \<Longrightarrow> lineChild (snd (wrapLines f cms cs lines line)) \<noteq> []"
proof (induction cs arbitrary: lines line)
  case Nil
  then show ?case by simp
next
  case (Cons c cs)
  then show ?case
    by (simp add: Let_def)
qed

lemma core_collectLines: "concat (lineCores (collectLines f cms cs)) = map core cs"
proof (cases "Wrap f = NoWrap")
  case True
  then show ?thesis
    by (simp add: collectLines_def singleLine_def lineCores_def Let_def core_def comp_def)
next
  case False
  obtain lines line where w: "wrapLines f cms cs [] zeroLine = (lines, line)"
    by (cases "wrapLines f cms cs [] zeroLine")
  have c: "concat (lineCores lines) @ map core (lineChild line) = map core cs"
    using core_wrapLines [of f cms cs "[]" zeroLine] w by (simp add: lineCores_def zeroLine_def)
  show ?thesis
  proof (cases "cs = []")
    case True
    then show ?thesis
      using False w by (auto simp: collectLines_def lineCores_def zeroLine_def)
  next
    case nonempty: False
    then have "lineChild line \<noteq> []"
      using wrapLines_running_line [of cs zeroLine f cms "[]"] w by simp
    then show ?thesis
      using False w c by (simp add: collectLines_def lineCores_def)
  qed
qed

lemma lineCores_layoutLines:
  "concat (lineCores (fst (layoutLines f w h es))) = map core (resolvePercent f w h es)"
proof -
  define es1 where "es1 = resolvePercent f w h es"
  define l1 where "l1 = collectLines f (mainSize_m f w h) es1"
  define l4 where "l4 = lineCrossSizes (crossSize_m f w h)
      (map (hypotheticalCrossSize f) (map (resolveFlexibleLengths f w h) l1))"
  obtain l5 off where s: "stackLines (Fin 0) l4 = (l5, off)"
    by (cases "stackLines (Fin 0) l4")
  define l10 where "l10 = alignLines f (crossSize_m f w h)
      (map (crossAxisAlignment f) (map (mainAxisAlignment f (mainSize_m f w h))
        (map (stretchItems f) (stretchLines f (crossSize_m f w h) off l5))))"
  obtain l11 m where i: "intrinsicMain (Fin 0) l10 = (l11, m)"
    by (cases "intrinsicMain (Fin 0) l10")
  have r: "fst (layoutLines f w h es) = l11"
    unfolding layoutLines_def Let_def
    unfolding es1_def [symmetric]
    unfolding l1_def [symmetric]
    unfolding l4_def [symmetric] s prod.case
    unfolding l10_def [symmetric] i prod.case
    by simp
  have "lineCores l4 = lineCores l1"
    by (simp add: l4_def lineCores_lineCrossSizes lineCores_map core_hypotheticalCrossSize
        core_resolveFlexibleLengths)
  moreover have "lineCores l5 = lineCores l4"
    using lineCores_stackLines [of "Fin 0" l4] s by simp
  moreover have "lineCores l10 = lineCores l5"
    by (simp add: l10_def lineCores_alignLines lineCores_map core_crossAxisAlignment
        core_mainAxisAlignment core_stretchItems lineCores_stretchLines)
  moreover have "lineCores l11 = lineCores l10"
    using lineCores_intrinsicMain [of "Fin 0" l10] i by simp
  ultimately have "lineCores l11 = lineCores l1"
    by simp
  then show ?thesis
    by (simp add: r l1_def core_collectLines es1_def)
qed

lemma collectChildren_children: "fst (collectChildren f i cs) = map (leftChild f) cs"
  by (induction cs arbitrary: i) (simp_all add: leftChild_def Let_def case_prod_beta)

lemma collectChildren_elements:
  "snd (collectChildren f i cs)
   = map (\<lambda>(k, c). newElement f k (c\<lparr>absolute := False\<rparr>))
       (filter (\<lambda>(k, c). isFlow c) (enumerate i cs))"
  by (induction cs arbitrary: i) (simp_all add: isFlow_def Let_def case_prod_beta)

lemma idx_collectChildren:
  "map idx (snd (collectChildren f i cs)) = map fst (filter (\<lambda>(k, c). isFlow c) (enumerate i cs))"
  by (simp add: collectChildren_elements comp_def case_prod_beta newElement_def)

lemma distinct_idx_collectChildren: "distinct (map idx (snd (collectChildren f i cs)))"
  unfolding idx_collectChildren
  by (rule distinct_map_filter) (simp add: map_fst_enumerate)

lemma flow_element:
  assumes "k < length cs" and "isFlow (cs ! k)"
  shows "newElement f k ((cs ! k)\<lparr>absolute := False\<rparr>) \<in> set (snd (collectChildren f 0 cs))"
proof -
  have "(k, cs ! k) \<in> set (filter (\<lambda>(k, c). isFlow c) (enumerate 0 cs))"
    using assms by (simp add: in_set_enumerate_eq)
  then show ?thesis
    unfolding collectChildren_elements by force
qed

lemma not_flow_idx:
  assumes "k < length cs" and "\<not> isFlow (cs ! k)"
  shows "k \<notin> idx ` set (snd (collectChildren f 0 cs))"
proof -
  have "k \<notin> set (map fst (filter (\<lambda>(k, c). isFlow c) (enumerate 0 cs)))"
    using assms by (auto simp: in_set_enumerate_eq)
  then show ?thesis
    using idx_collectChildren [of f 0 cs] by (metis set_map)
qed

lemma idx_bound_collectChildren:
  "e \<in> set (snd (collectChildren f 0 cs)) \<Longrightarrow> idx e < length cs"
proof -
  assume "e \<in> set (snd (collectChildren f 0 cs))"
  then have "idx e \<in> set (map fst (filter (\<lambda>(k, c). isFlow c) (enumerate 0 cs)))"
    using idx_collectChildren [of f 0 cs] by (metis image_eqI set_map)
  then show ?thesis
    by (auto simp: in_set_enumerate_eq)
qed

lemma fold_update_miss:
  "k \<notin> idx ` set es \<Longrightarrow> fold (\<lambda>c cs. cs[idx c := node c]) es cs ! k = cs ! k"
  by (induction es arbitrary: cs) auto

lemma fold_update_hit:
  "distinct (map idx es) \<Longrightarrow> e \<in> set es \<Longrightarrow> idx e < length cs \<Longrightarrow>
   fold (\<lambda>c cs. cs[idx c := node c]) es cs ! idx e = node e"
proof (induction es arbitrary: cs)
  case Nil
  then show ?case by simp
next
  case (Cons a es)
  show ?case
  proof (cases "e \<in> set es")
    case True
    then show ?thesis
      using Cons by simp
  next
    case False
    then have "e = a" and "idx e \<notin> idx ` set es"
      using Cons.prems by auto
    then show ?thesis
      using Cons.prems fold_update_miss [of "idx e" es "cs[idx a := node a]"] by simp
  qed
qed

lemma idx_resolvePercent: "map idx (resolvePercent f w h es) = map idx es"
  by (simp add: resolvePercent_def Let_def comp_def split: Direction.splits)

lemma lineChild_commit:
  "concat (map (lineChild \<circ> commitLine d f) lines)
   = map (commitChild d f) (concat (map lineChild lines))"
  by (induction lines) (simp_all add: commitLine_def)

lemma core_concat: "map core (concat (map lineChild lines)) = concat (lineCores lines)"
  by (simp add: lineCores_def map_concat comp_def)

text \<open>The children a layout pass returns, in terms of its parts.\<close>

lemma layout_children:
  assumes "collectChildren f 0 cs = (cs1, es)"
    and "layoutLines f w h es = (lines, m, c)"
  shows "snd (layout d f w h cs)
         = fold (\<lambda>c cs. cs[idx c := node c])
             (map (commitChild d (setCrossSize (setMainSize f m) c)) (concat (map lineChild lines)))
             cs1"
  using assms by (simp add: layout_def Let_def writeBack_def lineChild_commit)

lemma final_cores:
  assumes "layoutLines f w h es = (lines, m, c)"
  shows "map core (concat (map lineChild lines)) = map core (resolvePercent f w h es)"
  using lineCores_layoutLines [of f w h es] assms by (simp add: core_concat)

lemma final_idx:
  assumes "layoutLines f w h es = (lines, m, c)"
  shows "map idx (map (commitChild d g) (concat (map lineChild lines))) = map idx es"
proof -
  have "map idx (map (commitChild d g) (concat (map lineChild lines)))
        = map fst (map core (concat (map lineChild lines)))"
    by (simp add: commitChild_def Let_def core_def comp_def)
  also have "\<dots> = map fst (map core (resolvePercent f w h es))"
    using final_cores [OF assms] by simp
  also have "\<dots> = map idx es"
    using idx_resolvePercent [of f w h es] by (simp add: core_def comp_def)
  finally show ?thesis .
qed

lemma layout_not_flow:
  assumes "k < length cs" and "\<not> isFlow (cs ! k)"
  shows "snd (layout d f w h cs) ! k = leftChild f (cs ! k)"
proof -
  obtain cs1 es where cc: "collectChildren f 0 cs = (cs1, es)"
    by (cases "collectChildren f 0 cs")
  obtain lines m c where ll: "layoutLines f w h es = (lines, m, c)"
    by (cases "layoutLines f w h es") auto
  define E where "E = map (commitChild d (setCrossSize (setMainSize f m) c))
                        (concat (map lineChild lines))"
  have "idx ` set E = idx ` set es"
    using final_idx [OF ll, of d "setCrossSize (setMainSize f m) c"]
    unfolding E_def by (metis set_map)
  moreover have "k \<notin> idx ` set es"
    using not_flow_idx [OF assms, of f] cc by simp
  ultimately have "fold (\<lambda>c cs. cs[idx c := node c]) E cs1 ! k = cs1 ! k"
    by (simp add: fold_update_miss)
  moreover have "cs1 ! k = leftChild f (cs ! k)"
    using collectChildren_children [of f 0 cs] cc assms(1) by simp
  ultimately show ?thesis
    using layout_children [OF cc ll, of d] by (simp add: E_def)
qed

lemma layout_flow:
  fixes f :: "'a View_scheme"
  assumes "k < length cs" and "isFlow (cs ! k)"
  obtains e1 e and g :: "'a View_scheme" where "e1 \<in> set (resolvePercent f w h (snd (collectChildren f 0 cs)))"
    and "idx e1 = k" and "node e = node e1"
    and "snd (layout d f w h cs) ! k = node (commitChild d g e)"
proof -
  obtain cs1 es where cc: "collectChildren f 0 cs = (cs1, es)"
    by (cases "collectChildren f 0 cs")
  obtain lines m c where ll: "layoutLines f w h es = (lines, m, c)"
    by (cases "layoutLines f w h es") auto
  define g where "g = setCrossSize (setMainSize f m) c"
  define E where "E = map (commitChild d g) (concat (map lineChild lines))"
  have ek: "newElement f k ((cs ! k)\<lparr>absolute := False\<rparr>) \<in> set es"
    using flow_element [OF assms, of f] cc by simp
  have "k \<in> set (map idx es)"
    using ek by (force simp: newElement_def)
  then have "k \<in> set (map idx (resolvePercent f w h es))"
    by (simp only: idx_resolvePercent)
  then obtain e1 where e1: "e1 \<in> set (resolvePercent f w h es)" and k1: "idx e1 = k"
    by auto
  have "core e1 \<in> set (map core (concat (map lineChild lines)))"
    using e1 final_cores [OF ll] by (metis image_eqI set_map)
  then have "core e1 \<in> core ` set (concat (map lineChild lines))"
    by (simp only: set_map)
  then obtain e where e: "e \<in> set (concat (map lineChild lines))" and ce: "core e = core e1"
    by (metis (no_types, lifting) image_iff)
  have d: "distinct (map idx E)"
    using final_idx [OF ll, of d g] distinct_idx_collectChildren [of f 0 cs] cc
    by (simp add: E_def)
  have inE: "commitChild d g e \<in> set E"
    using e by (simp add: E_def)
  have ik: "idx (commitChild d g e) = k"
    using ce k1 by (simp add: commitChild_def Let_def core_def)
  have "length cs1 = length cs"
    using length_collectChildren [of f 0 cs] cc by simp
  then have "fold (\<lambda>c cs. cs[idx c := node c]) E cs1 ! idx (commitChild d g e)
             = node (commitChild d g e)"
    using fold_update_hit [OF d inE] ik assms(1) by simp
  then have r: "snd (layout d f w h cs) ! k = node (commitChild d g e)"
    using layout_children [OF cc ll, of d] ik by (simp add: E_def g_def)
  have n: "node e = node e1"
    using ce by (simp add: core_def)
  have "e1 \<in> set (resolvePercent f w h (snd (collectChildren f 0 cs)))"
    using e1 cc by simp
  then show thesis
    using that [of e1 e g] k1 n r by simp
qed

lemma element_form:
  assumes "e \<in> set (snd (collectChildren f 0 cs))"
  shows "e = newElement f (idx e) ((cs ! idx e)\<lparr>absolute := False\<rparr>)"
proof -
  from assms obtain k c where kc: "(k, c) \<in> set (enumerate 0 cs)"
    and e: "e = newElement f k (c\<lparr>absolute := False\<rparr>)"
    unfolding collectChildren_elements by auto
  have "c = cs ! k"
    using kc by (simp add: in_set_enumerate_eq)
  moreover have "idx e = k"
    using e by (simp add: newElement_def)
  ultimately show ?thesis
    using e by simp
qed

lemma fold_elements:
  "fold (\<lambda>e r. r - g (node e)) (snd (collectChildren f i cs)) a
   = fold (\<lambda>c r. r - g (c\<lparr>absolute := False\<rparr>)) (filter isFlow cs) a"
  by (induction cs arbitrary: i a)
     (simp_all add: isFlow_def Let_def case_prod_beta newElement_def)

lemma rowFreeSpace_elements:
  "fold (\<lambda>c r. r - (Width (node c) + MarginLeft (node c) + MarginRight (node c)))
     (snd (collectChildren f 0 cs)) w = rowFreeSpace w cs"
  using fold_elements [of "\<lambda>c. Width c + MarginLeft c + MarginRight c" f 0 cs w]
  by (simp add: rowFreeSpace_def)

text \<open>The definitions of the layout, for the evaluation of the examples.\<close>

lemmas layout_defs = layout_def layoutLines_def collectLines_def singleLine_def
  resolvePercent_def newElement_def absoluteBounds_def flexBaseSize_m_def mainSize_m_def
  crossSize_m_def mainMargin_m_def crossMargin_m_def setMainSize_def setCrossSize_def
  isCrossSizeFixed_def isHeightFixed_def isWidthFixed_def width_def height_def
  itemMainSize_def mainMargins_def crossMargins_def hypotheticalMainSize_def
  resolveFlexibleLengths_def freezeInflexible_def initialFreeSpace_def
  remainingFreeSpace_def flexIteration_def hypotheticalCrossSize_def lineCrossSizes_def
  stretchLines_def stretchItems_def justifyOffSpacing_def mainAxisAlignment_def
  crossAxisAlignment_def alignContentOffSpacing_def alignLines_def contentFlexFraction_def
  lineIntrinsicMain_def lineIntrinsicCross_def intrinsicCross_def commitChild_def
  commitLine_def writeBack_def setFrame_def setItems_def Rect_def Dx_def Dy_def Add_def
  feq_def fne_def math_Min_def math_Max_def float64_of_int_def minus_float64_def
  zeroLine_def zeroChild_def zeroView_def zeroRect_def View.extend_def Let_def

lemmas example_defs = frames_def attached_def rect_def absoluteExample_def absoluteRoot_def
  spaceBetweenExample_def
  absoluteItem_def wrapExample_def wrapRoot_def growExample_def percentExample_def
  percentRoot_def percentItems_def

lemma absoluteExample_frames: "frames (Update d absoluteExample) = [rect 50 40 60 50]"
  by (cases d) (simp_all add: example_defs Update.simps layout_defs)

lemma percentExample_frames:
  "frames (Update d percentExample) = [rect 0 400 450 500, rect 450 400 500 500]"
  by (cases d) (simp_all add: example_defs Update.simps layout_defs)

text \<open>The multi-line loop, one child at a time.\<close>

lemma wrapLines_snoc:
  "wrapLines f cms (cs @ [c]) lines line
   = (case wrapLines f cms cs lines line of (lines', line') \<Rightarrow> wrapLines f cms [c] lines' line')"
  by (induction cs arbitrary: lines line) (simp_all add: Let_def case_prod_beta)

lemma collectLines_wrap:
  assumes "Wrap f \<noteq> NoWrap" and "cs \<noteq> []"
  shows "collectLines f cms cs
         = fst (wrapLines f cms cs [] zeroLine) @ [snd (wrapLines f cms cs [] zeroLine)]"
  using assms wrapLines_running_line [of cs zeroLine f cms "[]"]
  by (simp add: collectLines_def case_prod_beta)

lemma collectLines_snoc:
  assumes "Wrap f \<noteq> NoWrap" and "cs \<noteq> []"
  shows "collectLines f cms (cs @ [c])
         = (let lines = collectLines f cms cs;
                line = last lines;
                c1 = c\<lparr>mainMargin := mainMargin_m f (node c)\<rparr>;
                hyp = hypotheticalMainSize c1
            in if Fin 0 < lineMainSize line \<and> cms < lineMainSize line + hyp
               then lines @ [zeroLine\<lparr>lineChild := [c1], lineMainSize := Fin 0 + hyp\<rparr>]
               else butlast lines
                      @ [line\<lparr>lineChild := lineChild line @ [c1],
                              lineMainSize := lineMainSize line + hyp\<rparr>])"
proof -
  obtain ls l where w: "wrapLines f cms cs [] zeroLine = (ls, l)"
    by (cases "wrapLines f cms cs [] zeroLine")
  have a: "collectLines f cms cs = ls @ [l]"
    using collectLines_wrap [OF assms, of cms] w by simp
  have "collectLines f cms (cs @ [c])
        = fst (wrapLines f cms [c] ls l) @ [snd (wrapLines f cms [c] ls l)]"
    using collectLines_wrap [OF assms(1), of "cs @ [c]" cms] w by (simp add: wrapLines_snoc)
  then show ?thesis
    by (simp add: a Let_def zeroLine_def)
qed

lemma wrapLines_nonempty:
  assumes "\<forall>l \<in> set lines. lineChild l \<noteq> []"
    and "lineChild line = [] \<longrightarrow> \<not> Fin 0 < lineMainSize line"
  shows "\<forall>l \<in> set (fst (wrapLines f cms cs lines line)). lineChild l \<noteq> []"
  using assms
proof (induction cs arbitrary: lines line)
  case Nil
  then show ?case by simp
next
  case (Cons c cs)
  define c1 where "c1 = c\<lparr>mainMargin := mainMargin_m f (node c)\<rparr>"
  define hyp where "hyp = hypotheticalMainSize c1"
  show ?case
  proof (cases "Fin 0 < lineMainSize line \<and> cms < lineMainSize line + hyp")
    case True
    then have "lineChild line \<noteq> []"
      using Cons.prems(2) by auto
    then have "\<forall>l \<in> set (lines @ [line]). lineChild l \<noteq> []"
      using Cons.prems(1) by simp
    then have "\<forall>l \<in> set (fst (wrapLines f cms cs (lines @ [line])
          (zeroLine\<lparr>lineChild := lineChild zeroLine @ [c1],
                    lineMainSize := lineMainSize zeroLine + hyp\<rparr>))). lineChild l \<noteq> []"
      by (rule Cons.IH) simp
    then show ?thesis
      using True by (simp add: Let_def c1_def hyp_def)
  next
    case False
    have "\<forall>l \<in> set (fst (wrapLines f cms cs lines
          (line\<lparr>lineChild := lineChild line @ [c1],
                lineMainSize := lineMainSize line + hyp\<rparr>))). lineChild l \<noteq> []"
      using Cons.prems(1) by (rule Cons.IH) simp
    moreover have "(if Fin 0 < lineMainSize line \<and> cms < lineMainSize line + hyp
                    then (lines @ [line], zeroLine) else (lines, line)) = (lines, line)"
      using False by (simp only: if_False)
    ultimately show ?thesis
      by (simp add: Let_def c1_def [symmetric] hyp_def [symmetric])
  qed
qed

lemma collectLines_nonempty:
  assumes "cs \<noteq> []"
  shows "\<forall>l \<in> set (collectLines f cms cs). lineChild l \<noteq> []"
proof (cases "Wrap f = NoWrap")
  case True
  then show ?thesis
    using assms by (simp add: collectLines_def singleLine_def Let_def)
next
  case False
  have "\<forall>l \<in> set (fst (wrapLines f cms cs [] zeroLine)). lineChild l \<noteq> []"
    by (rule wrapLines_nonempty) (simp_all add: zeroLine_def)
  moreover have "lineChild (snd (wrapLines f cms cs [] zeroLine)) \<noteq> []"
    using assms wrapLines_running_line [of cs zeroLine f cms "[]"] by simp
  ultimately show ?thesis
    using collectLines_wrap [OF False assms, of cms] by auto
qed

lemma wrapLines_children:
  "concat (map lineChild (fst (wrapLines f cms cs lines line)))
     @ lineChild (snd (wrapLines f cms cs lines line))
   = concat (map lineChild lines) @ lineChild line
       @ map (\<lambda>c. c\<lparr>mainMargin := mainMargin_m f (node c)\<rparr>) cs"
  by (induction cs arbitrary: lines line) (simp_all add: Let_def zeroLine_def)

lemma collectLines_children:
  "concat (map lineChild (collectLines f cms cs))
   = map (\<lambda>c. c\<lparr>mainMargin := mainMargin_m f (node c)\<rparr>) cs"
proof (cases "Wrap f = NoWrap \<or> cs = []")
  case True
  then show ?thesis
    by (auto simp: collectLines_def singleLine_def Let_def zeroLine_def)
next
  case False
  then show ?thesis
    using collectLines_wrap [of f cs cms] wrapLines_children [of f cms cs "[]" zeroLine]
    by (simp add: zeroLine_def)
qed

lemma wrapExample_lines:
  "lineIndices (collectLines wrapRoot (Fin 200) (snd (collectChildren wrapRoot 0 wrapItems)))
   = [[0, 1], [2]]"
  by (simp add: lineIndices_def wrapItems_def wrapRoot_def layout_defs)

lemma wrapExample_frames:
  "frames (Update d wrapExample) = [rect 0 0 100 100, rect 100 0 200 100, rect 0 100 100 200]"
  by (cases d) (simp_all add: example_defs Update.simps layout_defs)

lemma spaceBetweenExample_frames: "frames (Update d spaceBetweenExample) = [rect 3 0 53 50]"
  by (cases d) (simp_all add: example_defs Update.simps layout_defs)

text \<open>The flexible lengths of a line in grow mode, as sums.\<close>

lemma float_add_zero: "x + Fin 0 = (x :: float64)"
  by (cases x) simp_all

lemma float_sub_zero: "x - Fin 0 = (x :: float64)"
  by (cases x) (simp_all add: minus_float64_def)

lemma float_sub_sub: "(x - a) - b = x - (a + (b :: float64))"
  by (cases x; cases a; cases b) (simp_all add: minus_float64_def)

lemma fold_sub:
  "fold (\<lambda>c r. r - g c) cs (x - a) = x - fold (\<lambda>c s. s + g c) cs (a :: float64)"
  by (induction cs arbitrary: a) (simp_all add: float_sub_sub)

lemma fold_sub_sumList:
  "fold (\<lambda>c r. r - g c) cs x = x - sumList (map g cs)"
  using fold_sub [of g cs x "Fin 0"] by (simp add: float_sub_zero sumList_def fold_map comp_def)

lemma fold_add_sumList:
  "fold (\<lambda>c s. s + g c) cs (Fin 0) = sumList (map g cs)"
  by (simp add: sumList_def fold_map comp_def)

lemma itemMainSize_basis: "itemMainSize f c = flexBaseSize_m f (node c)"
  by (simp add: itemMainSize_def flexBaseSize_m_def width_def height_def Let_def)

lemma flexLoop_once:
  "flexLoop f w h grow fs cs
   = (if list_all frozen cs then cs else flexIteration f w h grow fs cs)"
proof (cases "list_all frozen cs")
  case True
  then show ?thesis by simp
next
  case False
  then have "flexLoop f w h grow fs cs = flexLoop f w h grow fs (flexIteration f w h grow fs cs)"
    by (subst flexLoop.simps) simp
  also have "\<dots> = flexIteration f w h grow fs cs"
    by (subst flexLoop.simps) (simp add: flexIteration_frozen)
  finally show ?thesis
    using False by simp
qed

lemma freeze_grow:
  assumes "\<not> frozen c"
  shows "node (freezeInflexible f True c) = node c"
    and "mainMargin (freezeInflexible f True c) = mainMargin c"
    and "frozen (freezeInflexible f True c) = feq (Grow (node c)) (Fin 0)"
    and "feq (Grow (node c)) (Fin 0) \<Longrightarrow> mainSize (freezeInflexible f True c) = itemMainSize f c"
  using assms by (simp_all add: freezeInflexible_def)

lemma remainingFreeSpace_grow:
  assumes "list_all (\<lambda>c. \<not> frozen c) cs"
  shows "fold (\<lambda>c (remFreeSpace, unfrozenFlexFactor).
             if frozen c then (remFreeSpace - (mainSize c + mainMargins c), unfrozenFlexFactor)
             else (remFreeSpace - (itemMainSize f c + mainMargins c),
                   if True then unfrozenFlexFactor + Grow (node c)
                   else unfrozenFlexFactor + Shrink (node c)))
          (map (freezeInflexible f True) cs) (r, u)
         = (fold (\<lambda>c r. r - (itemMainSize f c + mainMargins c)) cs r,
            fold (\<lambda>c s. s + Grow (node c)) cs u)"
  using assms
proof (induction cs arbitrary: r u)
  case Nil
  then show ?case by simp
next
  case (Cons c cs)
  then have nf: "\<not> frozen c" and rest: "list_all (\<lambda>c. \<not> frozen c) cs"
    by simp_all
  show ?case
  proof (cases "feq (Grow (node c)) (Fin 0)")
    case True
    then have "Grow (node c) = Fin 0"
      by (simp add: feq_def)
    then show ?thesis
      using True freeze_grow [OF nf, of f] Cons.IH [OF rest]
      by (simp add: float_add_zero mainMargins_def)
  next
    case False
    then show ?thesis
      using freeze_grow [OF nf, of f] Cons.IH [OF rest]
      by (simp add: mainMargins_def itemMainSize_def)
  qed
qed

lemma grow_share:
  assumes "list_all (\<lambda>c. \<not> frozen c) (lineChild line)"
    and "lineMainSize line < mainSize_m f w h"
    and "i < length (lineChild line)"
  shows "mainSize (lineChild (resolveFlexibleLengths f w h line) ! i)
         = (let c = lineChild line ! i;
                basis = flexBaseSize_m f (node c);
                factors = sumList (map (\<lambda>c. Grow (node c)) (lineChild line));
                freeSpace = mainSize_m f w h
                  - sumList (map (\<lambda>c. flexBaseSize_m f (node c) + mainMargins c) (lineChild line));
                share = (if factors < Fin 1 \<and> math_Abs (freeSpace * factors) < math_Abs freeSpace
                         then freeSpace * factors else freeSpace)
            in if feq (Grow (node c)) (Fin 0) then basis
               else basis + Grow (node c) / factors * share)"
proof -
  define cs where "cs = lineChild line"
  define cs1 where "cs1 = map (freezeInflexible f True) cs"
  define U where "U = sumList (map (\<lambda>c. Grow (node c)) cs)"
  define F where "F = mainSize_m f w h
      - sumList (map (\<lambda>c. flexBaseSize_m f (node c) + mainMargins c) cs)"
  define c where "c = cs ! i"
  have nf: "list_all (\<lambda>c. \<not> frozen c) cs" and i: "i < length cs"
    using assms by (simp_all add: cs_def)
  have nfc: "\<not> frozen c"
    using nf i by (simp add: c_def list_all_length)
  have c1: "cs1 ! i = freezeInflexible f True c"
    using i by (simp add: cs1_def c_def)
  have rem: "remainingFreeSpace f w h True cs1 = (F, U)"
    unfolding remainingFreeSpace_def cs1_def
    using remainingFreeSpace_grow [OF nf, of f "mainSize_m f w h" "Fin 0"]
    by (simp add: fold_sub_sumList fold_add_sumList F_def U_def itemMainSize_basis)
  have "(\<lambda>c. flexBaseSize_m f (node (freezeInflexible f True c))
               + mainMargins (freezeInflexible f True c))
        = (\<lambda>c. flexBaseSize_m f (node c) + mainMargins c)"
    by (rule ext) (simp add: freezeInflexible_def mainMargins_def)
  then have "map (\<lambda>c. flexBaseSize_m f (node c) + mainMargins c) cs1
             = map (\<lambda>c. flexBaseSize_m f (node c) + mainMargins c) cs"
    by (simp add: cs1_def comp_def)
  then have ini: "initialFreeSpace f w h cs1 = F"
    by (simp add: initialFreeSpace_def fold_sub_sumList F_def)
  have res: "lineChild (resolveFlexibleLengths f w h line)
             = (if list_all frozen cs1 then cs1 else flexIteration f w h True F cs1)"
    using assms(2)
    by (simp add: resolveFlexibleLengths_def Let_def cs_def [symmetric] cs1_def [symmetric]
        ini flexLoop_once del: flexLoop.simps)
  have len: "i < length cs1"
    using i by (simp add: cs1_def)
  show ?thesis
  proof (cases "feq (Grow (node c)) (Fin 0)")
    case True
    then have fr: "frozen (cs1 ! i)" and ms: "mainSize (cs1 ! i) = itemMainSize f c"
      using freeze_grow [OF nfc, of f] c1 by simp_all
    have "mainSize (lineChild (resolveFlexibleLengths f w h line) ! i) = itemMainSize f c"
      using fr ms len by (simp add: res flexIteration_def rem Let_def)
    then show ?thesis
      using True by (simp add: Let_def cs_def [symmetric] c_def [symmetric] itemMainSize_basis)
  next
    case False
    then have fr: "\<not> frozen (cs1 ! i)" and nd: "node (cs1 ! i) = node c"
      using freeze_grow [OF nfc, of f] c1 by simp_all
    then have "\<not> list_all frozen cs1"
      using len by (auto simp: list_all_length)
    then have "mainSize (lineChild (resolveFlexibleLengths f w h line) ! i)
               = itemMainSize f c + Grow (node c) / U
                   * (if U < Fin 1 \<and> math_Abs (F * U) < math_Abs F then F * U else F)"
      using fr nd len by (simp add: res flexIteration_def rem Let_def itemMainSize_def)
    then show ?thesis
      using False
      by (simp add: Let_def cs_def [symmetric] c_def [symmetric] itemMainSize_basis
          U_def [symmetric] F_def [symmetric])
  qed
qed

lemma unfrozen_collectChildren:
  "list_all (\<lambda>c. \<not> frozen c) (snd (collectChildren f i cs))"
  by (simp add: collectChildren_elements list_all_iff newElement_def case_prod_beta)

lemma unfrozen_resolvePercent:
  "list_all (\<lambda>c. \<not> frozen c) es \<Longrightarrow> list_all (\<lambda>c. \<not> frozen c) (resolvePercent f w h es)"
  by (auto simp: resolvePercent_def Let_def list_all_iff split: Direction.splits)

lemma pass_lines_unfrozen:
  "list_all (\<lambda>line. list_all (\<lambda>c. \<not> frozen c) (lineChild line))
     (collectLines f cms (resolvePercent f w h (snd (collectChildren f 0 cs))))"
proof -
  define es where "es = resolvePercent f w h (snd (collectChildren f 0 cs))"
  have u: "list_all (\<lambda>c. \<not> frozen c) es"
    unfolding es_def by (rule unfrozen_resolvePercent) (rule unfrozen_collectChildren)
  have "\<not> frozen c" if "line \<in> set (collectLines f cms es)" and "c \<in> set (lineChild line)"
    for line c
  proof -
    have "c \<in> set (concat (map lineChild (collectLines f cms es)))"
      using that by auto
    then obtain c0 where "c0 \<in> set es" and "c = c0\<lparr>mainMargin := mainMargin_m f (node c0)\<rparr>"
      unfolding collectLines_children by auto
    then show ?thesis
      using u by (simp add: list_all_iff)
  qed
  then show ?thesis
    by (simp add: list_all_iff es_def)
qed

lemma growExample_frames:
  "0 \<le> H \<Longrightarrow> frames (Update d (growExample H)) = [rect 0 0 500 H, rect 500 0 1000 H]"
  by (cases d; cases "H = 0") (simp_all add: example_defs Update.simps layout_defs)

section \<open>Results for the layout pass\<close>

text \<open>
  C2, as the claim states it, fails: for a line with one child under space-between the
  spacing of the step is not zero. With 47 left over (a container 100 wide, a child 50
  wide with a left margin of 3) the spacing is \<open>47 / float64(0)\<close>, positive infinity.
\<close>

theorem space_between_counterexample:
  "snd (justifyOffSpacing JustifySpaceBetween (Fin 100 - (Fin 50 + (Fin 3 + Fin 0))) 1) = PInf
   \<and> snd (justifyOffSpacing JustifySpaceBetween (Fin 100 - (Fin 50 + (Fin 3 + Fin 0))) 1) \<noteq> Fin 0"
  by (simp add: justifyOffSpacing_def float64_of_int_def minus_float64_def)

text \<open>
  C2, amended. For every line with exactly one child under justify space-between the
  main-axis alignment step starts at offset zero and places the child at zero plus its
  leading margin, which is the leading margin whenever that is a number. The spacing of
  the step is the quotient of the free space by zero: an infinity or not-a-number, never
  zero. The step adds it to the running offset only after the child is placed, so it
  reaches no child: the child of the example has the frame [3, 0, 53, 50].
\<close>

theorem space_between_single_child:
  assumes "lineChild line = [c]" and "Justify f = JustifySpaceBetween"
  shows "lineChild (mainAxisAlignment f cms line) = [c\<lparr>mainOffset := Fin 0 + mainMargin c ! 0\<rparr>]
    \<and> (mainMargin c ! 0 = Fin m \<longrightarrow>
          map mainOffset (lineChild (mainAxisAlignment f cms line)) = [Fin m])
    \<and> fst (justifyOffSpacing JustifySpaceBetween remFree 1) = Fin 0
    \<and> snd (justifyOffSpacing JustifySpaceBetween remFree 1) \<in> {PInf, NInf, NaN}
    \<and> frames (Update d spaceBetweenExample) = [rect 3 0 53 50]"
proof -
  have "lineChild (mainAxisAlignment f cms line) = [c\<lparr>mainOffset := Fin 0 + mainMargin c ! 0\<rparr>]"
    using assms by (simp add: mainAxisAlignment_def justifyOffSpacing_def Let_def)
  moreover have "snd (justifyOffSpacing JustifySpaceBetween remFree 1) \<in> {PInf, NInf, NaN}"
    by (cases remFree) (simp_all add: justifyOffSpacing_def float64_of_int_def)
  moreover have "fst (justifyOffSpacing JustifySpaceBetween remFree 1) = Fin 0"
    by (simp add: justifyOffSpacing_def)
  ultimately show ?thesis
    by (simp add: spaceBetweenExample_frames)
qed

theorem space_between_single_child_witness:
  "map mainOffset
     (lineChild (mainAxisAlignment (zeroChild\<lparr>Justify := JustifySpaceBetween\<rparr>) (Fin 100)
        (zeroLine\<lparr>lineChild := [(newElement zeroChild 0 zeroChild)
                     \<lparr>mainSize := Fin 50, mainMargin := [Fin 3, Fin 0]\<rparr>]\<rparr>)))
   = [Fin 3]"
proof -
  have "lineChild (zeroLine\<lparr>lineChild := [(newElement zeroChild 0 zeroChild)
            \<lparr>mainSize := Fin 50, mainMargin := [Fin 3, Fin 0]\<rparr>]\<rparr>)
        = [(newElement zeroChild 0 zeroChild)\<lparr>mainSize := Fin 50, mainMargin := [Fin 3, Fin 0]\<rparr>]"
    and "Justify (zeroChild\<lparr>Justify := JustifySpaceBetween\<rparr>) = JustifySpaceBetween"
    by simp_all
  from space_between_single_child [OF this, of "Fin 100" 3]
  show ?thesis
    by simp
qed

text \<open>
  C3, as the claim states it, fails for a hidden child: the pass skips a child with
  \<open>Display\<close> none before it looks at \<open>Position\<close>. In the 100 by 100 container the absolute
  10 by 10 child with right 40 and bottom 50, when hidden, keeps the frame it had.
\<close>

theorem hidden_absolute_counterexample:
  "frames (Update True (ViewNode absoluteRoot [ViewNode (absoluteItem\<lparr>Display := DisplayNone\<rparr>) []]))
     = [rect 0 0 0 0]
   \<and> frames (Update True (ViewNode absoluteRoot [ViewNode (absoluteItem\<lparr>Display := DisplayNone\<rparr>) []]))
     \<noteq> [rect 50 40 60 50]"
  by (simp add: example_defs Update.simps layout_defs)

text \<open>
  C3, amended. For every container frame and every child with \<open>Position\<close> absolute that
  is not hidden, the layout pass of the container computes the frame of the child directly:
  \<open>x\<close> is the container's left edge plus \<open>Left\<close> when \<open>Left\<close> is set (is not zero, which is
  how the code tells), else the container's right edge less \<open>Right\<close> less the width when
  \<open>Right\<close> is set, else the container's left edge; \<open>y\<close> likewise from \<open>Top\<close> and \<open>Bottom\<close>;
  the frame is \<open>Rect\<close> of \<open>(x, y)\<close> and \<open>(x + Width, y + Height)\<close>. In particular a
  100 by 100 container at the origin with an absolute 10 by 10 child with right 40 and
  bottom 50 gives the child the frame [50, 40, 60, 50] in one tick.
\<close>

theorem absolute_child_frame:
  assumes "k < length cs"
    and "Display (cs ! k) \<noteq> DisplayNone" and "Position (cs ! k) = PositionAbsolute"
  shows "frame (snd (layout d f w h cs) ! k)
         = (let c = cs ! k;
                x = (if fne (Left c) (Fin 0) then X (MinP (frame f)) + Left c
                     else (case Right c of
                             Some r \<Rightarrow> X (MaxP (frame f)) - r - Width c
                           | None \<Rightarrow> X (MinP (frame f))));
                y = (if fne (Top c) (Fin 0) then Y (MinP (frame f)) + Top c
                     else (case Bottom c of
                             Some b \<Rightarrow> Y (MaxP (frame f)) - b - Height c
                           | None \<Rightarrow> Y (MinP (frame f))))
            in Rect x y (x + Width c) (y + Height c))
     \<and> frames (Update d absoluteExample) = [rect 50 40 60 50]"
proof -
  have "\<not> isFlow (cs ! k)"
    using assms by (simp add: isFlow_def)
  then have "snd (layout d f w h cs) ! k = leftChild f (cs ! k)"
    using assms(1) by (rule layout_not_flow [rotated])
  then show ?thesis
    using assms by (simp add: leftChild_def absoluteBounds_def Let_def absoluteExample_frames)
qed

theorem absolute_child_frame_witness:
  "frame (snd (layout True (absoluteRoot\<lparr>frame := rect 0 0 100 100\<rparr>) (Fin 100) (Fin 100)
                 [absoluteItem]) ! 0)
   = rect 50 40 60 50"
proof -
  have "0 < length [absoluteItem]"
    and "Display ([absoluteItem] ! 0) \<noteq> DisplayNone"
    and "Position ([absoluteItem] ! 0) = PositionAbsolute"
    by (simp_all add: absoluteItem_def zeroChild_def zeroView_def View.extend_def)
  from absolute_child_frame [OF this, of True "absoluteRoot\<lparr>frame := rect 0 0 100 100\<rparr>"
      "Fin 100" "Fin 100"]
  show ?thesis
    by (simp add: example_defs layout_defs)
qed

text \<open>
  C4, as the claim states it, fails: a configuration that meets every condition of the
  claim need not give the frames [0, 0, 500, H] and [500, 0, 1000, H]. When the first of
  the two children holds a child 100 wide, its basis is 100 and the frames are
  [0, 0, 550, 1000] and [550, 0, 1000, 1000]. And when the container of the example is
  laid out again after its height went from 1000 to 500, the children keep the height
  1000 that their own pass computed from their frame.
\<close>

theorem grow_frames_counterexample:
  "frames (Update True nestedGrowExample) = [rect 0 0 550 1000, rect 550 0 1000 1000]
   \<and> frames (Update True nestedGrowExample) \<noteq> [rect 0 0 500 1000, rect 500 0 1000 1000]
   \<and> frames (UpdateWithSize True (Fin 1000) (Fin 500) (Update True (growExample 1000)))
       = [rect 0 0 500 1000, rect 500 0 1000 1000]
   \<and> frames (UpdateWithSize True (Fin 1000) (Fin 500) (Update True (growExample 1000)))
       \<noteq> [rect 0 0 500 500, rect 500 0 1000 500]"
  by (simp add: nestedGrowExample_def UpdateWithSize_def example_defs Update.simps layout_defs)

text \<open>
  C4, amended. In grow mode (the summed bases and margins of the line are less than the
  container's main size) the distribution gives each child of a line whose grow factor
  is not zero its basis plus (factor / sum of factors) times the free space, and leaves
  a child with grow factor zero at its basis. The basis is the child's explicit main
  size or else the size computed for it before; the free space is the container's main
  size less the bases and the main margins of the line, multiplied by the sum of the
  factors when that sum is below 1 and the product is smaller in magnitude. Every line
  the pass builds meets the first hypothesis: its elements are not frozen. For a row
  container at the origin, 1000 wide and \<open>H\<close> high, with default justify and align and
  exactly two children that are freshly constructed views without children of their own,
  with grow factor 1, no explicit size and no margin, the bases are 0 and the frames
  after one tick are [0, 0, 500, H] and [500, 0, 1000, H].
\<close>

theorem grow_distribution:
  assumes "list_all (\<lambda>c. \<not> frozen c) (lineChild line)"
    and "lineMainSize line < mainSize_m f w h"
    and "i < length (lineChild line)"
  shows "mainSize (lineChild (resolveFlexibleLengths f w h line) ! i)
         = (let c = lineChild line ! i;
                basis = flexBaseSize_m f (node c);
                factors = sumList (map (\<lambda>c. Grow (node c)) (lineChild line));
                freeSpace = mainSize_m f w h
                  - sumList (map (\<lambda>c. flexBaseSize_m f (node c) + mainMargins c) (lineChild line));
                share = (if factors < Fin 1 \<and> math_Abs (freeSpace * factors) < math_Abs freeSpace
                         then freeSpace * factors else freeSpace)
            in if feq (Grow (node c)) (Fin 0) then basis
               else basis + Grow (node c) / factors * share)
     \<and> list_all (\<lambda>line. list_all (\<lambda>c. \<not> frozen c) (lineChild line))
         (collectLines f cms (resolvePercent f w h (snd (collectChildren f 0 cs))))
     \<and> (0 \<le> H \<longrightarrow> frames (Update d (growExample H)) = [rect 0 0 500 H, rect 500 0 1000 H])"
  using grow_share [OF assms] pass_lines_unfrozen [of f cms w h cs] growExample_frames [of H d]
  by simp

text \<open>Two lines in a container 1000 wide: bases 100 and 0 with the factors 1 and 3 give
  100 + 900 / 4 and 0 + 3 * 900 / 4; bases 0 with the factors 1/4 and 1/4 share half of
  the free space.\<close>

theorem grow_distribution_witness:
  "mainSize (lineChild (resolveFlexibleLengths zeroChild (Fin 1000) (Fin 0) (growLine 100 1 3)) ! 0)
     = Fin 325
   \<and> mainSize (lineChild (resolveFlexibleLengths zeroChild (Fin 1000) (Fin 0) (growLine 100 1 3)) ! 1)
     = Fin 675
   \<and> mainSize (lineChild (resolveFlexibleLengths zeroChild (Fin 1000) (Fin 0)
                             (growLine 0 (1 / 4) (1 / 4))) ! 0)
     = Fin 250"
proof -
  have a: "list_all (\<lambda>c. \<not> frozen c) (lineChild (growLine 100 1 3))"
    "lineMainSize (growLine 100 1 3) < mainSize_m zeroChild (Fin 1000) (Fin 0)"
    "0 < length (lineChild (growLine 100 1 3))" "1 < length (lineChild (growLine 100 1 3))"
    by (simp_all add: growLine_def newElement_def zeroLine_def mainSize_m_def zeroChild_def
        zeroView_def View.extend_def)
  have b: "list_all (\<lambda>c. \<not> frozen c) (lineChild (growLine 0 (1 / 4) (1 / 4)))"
    "lineMainSize (growLine 0 (1 / 4) (1 / 4)) < mainSize_m zeroChild (Fin 1000) (Fin 0)"
    "0 < length (lineChild (growLine 0 (1 / 4) (1 / 4)))"
    by (simp_all add: growLine_def newElement_def zeroLine_def mainSize_m_def zeroChild_def
        zeroView_def View.extend_def)
  show ?thesis
    using grow_distribution [OF a(1) a(2) a(3)] grow_distribution [OF a(1) a(2) a(4)]
      grow_distribution [OF b]
    by (simp add: growLine_def newElement_def zeroLine_def mainSize_m_def zeroChild_def
        zeroView_def View.extend_def sumList_def flexBaseSize_m_def mainMargins_def feq_def
        minus_float64_def Let_def)
qed

text \<open>
  C5, as the claim states it, fails twice. In a wrapping row 200 wide the first child has
  the hypothetical main size 0 and the second 300: when the loop reaches the second
  child the running line is not empty and the second child makes it exceed 200, yet the
  loop starts no new line, because the main size of the running line is not greater than
  zero; both children are on one line. And a container without flow children has one
  line with no child.
\<close>

theorem wrap_counterexample:
  "lineIndices (collectLines wrapRoot (Fin 200) (snd (collectChildren wrapRoot 0 wideItems)))
     = [[0, 1]]
   \<and> map hypotheticalMainSize
       (concat (map lineChild
          (collectLines wrapRoot (Fin 200) (snd (collectChildren wrapRoot 0 wideItems)))))
     = [Fin 0, Fin 300]
   \<and> map lineChild (collectLines wrapRoot (Fin 200) []) = [[]]"
  by (simp add: lineIndices_def wideItems_def wrapRoot_def layout_defs)

text \<open>
  C5, amended. With wrap enabled the line collection is greedy: the lines of the children
  \<open>cs\<close> followed by \<open>c\<close> are the lines of \<open>cs\<close> with \<open>c\<close> on a new line exactly when the
  main size of the last line is greater than zero and adding the flex basis and main
  margins of \<open>c\<close> would exceed the container's main size, and with \<open>c\<close> added to the last
  line otherwise. Every line of a container with at least one flow child has at least
  one child, and the lines hold the children in order. In particular three 100 by 100
  children in a 200 by 200 row container with start/start alignment form two lines, the
  first two children and the third, and the frame of the third is [0, 100, 100, 200].
\<close>

theorem wrap_lines:
  "(Wrap f \<noteq> NoWrap \<and> cs \<noteq> [] \<longrightarrow>
      collectLines f cms (cs @ [c])
      = (let lines = collectLines f cms cs;
             line = last lines;
             c1 = c\<lparr>mainMargin := mainMargin_m f (node c)\<rparr>;
             hyp = hypotheticalMainSize c1
         in if Fin 0 < lineMainSize line \<and> cms < lineMainSize line + hyp
            then lines @ [zeroLine\<lparr>lineChild := [c1], lineMainSize := Fin 0 + hyp\<rparr>]
            else butlast lines
                   @ [line\<lparr>lineChild := lineChild line @ [c1],
                           lineMainSize := lineMainSize line + hyp\<rparr>]))
   \<and> (cs \<noteq> [] \<longrightarrow> list_all (\<lambda>line. lineChild line \<noteq> []) (collectLines f cms cs))
   \<and> concat (map lineChild (collectLines f cms cs))
       = map (\<lambda>c. c\<lparr>mainMargin := mainMargin_m f (node c)\<rparr>) cs
   \<and> lineIndices (collectLines wrapRoot (Fin 200) (snd (collectChildren wrapRoot 0 wrapItems)))
       = [[0, 1], [2]]
   \<and> frames (Update d wrapExample) ! 2 = rect 0 100 100 200"
  using collectLines_snoc [of f cs cms c] collectLines_nonempty [of cs f cms]
    collectLines_children [of f cms cs] wrapExample_lines wrapExample_frames [of d]
  by (simp add: list_all_iff)

theorem wrap_lines_witness:
  "list_all (\<lambda>line. lineChild line \<noteq> [])
     (collectLines wrapRoot (Fin 200) (snd (collectChildren wrapRoot 0 wrapItems)))
   \<and> length (collectLines wrapRoot (Fin 200) (snd (collectChildren wrapRoot 0 wrapItems))) = 2"
proof -
  have n: "snd (collectChildren wrapRoot 0 wrapItems) \<noteq> []"
    by (simp add: wrapItems_def wrapRoot_def layout_defs)
  have "length (lineIndices
          (collectLines wrapRoot (Fin 200) (snd (collectChildren wrapRoot 0 wrapItems)))) = 2"
    using wrap_lines [of wrapRoot "snd (collectChildren wrapRoot 0 wrapItems)" "Fin 200"]
    by simp
  then show ?thesis
    using n wrap_lines [of wrapRoot "snd (collectChildren wrapRoot 0 wrapItems)" "Fin 200"]
    by (simp add: lineIndices_def)
qed

text \<open>
  C6. For every row container the pass resolves a main-axis percentage only when free
  space remains after the explicit width and the horizontal margins of every flow child
  are taken from the container's width, and then the resolved width of each percentage
  child (its \<open>calculatedWidth\<close> when the pass of the container ends) is the smaller of
  percentage times container width and that free space; otherwise the pass leaves it as
  it was. The flow children are the children the pass lays out in flow, those that are
  neither hidden nor absolute; a percentage child is a flow child with a positive
  \<open>WidthInPct\<close>. In particular in a row 500 wide with the children [width 100%, width 50] the
  percentage child resolves to 450 and its frame is 450 wide.
\<close>

theorem percent_width:
  fixes f :: "'a View_scheme"
  assumes "Direction f = Row" and "k < length cs"
    and "Display (cs ! k) \<noteq> DisplayNone" and "Position (cs ! k) \<noteq> PositionAbsolute"
    and "Fin 0 < WidthInPct (cs ! k)"
  shows "calculatedWidth (snd (layout d f w h cs) ! k)
         = (if Fin 0 < rowFreeSpace w cs
            then math_Min (w * WidthInPct (cs ! k) / Fin 100) (rowFreeSpace w cs)
            else calculatedWidth (cs ! k))
     \<and> frames (Update d percentExample) = [rect 0 400 450 500, rect 450 400 500 500]"
proof -
  define es where "es = snd (collectChildren f 0 cs)"
  have flow: "isFlow (cs ! k)"
    using assms by (simp add: isFlow_def)
  obtain e1 e and g :: "'a View_scheme"
    where e1: "e1 \<in> set (resolvePercent f w h es)" and k1: "idx e1 = k"
      and n: "node e = node e1"
      and r: "snd (layout d f w h cs) ! k = node (commitChild d g e)"
    using layout_flow [OF assms(2) flow, of f w h d] unfolding es_def by blast
  define G :: "element \<Rightarrow> element" where "G = (\<lambda>c. let c1 = (if Fin 0 < rowFreeSpace w cs \<and> Fin 0 < widthInPct c
        then c\<lparr>node := (node c)\<lparr>calculatedWidth :=
               math_Min (w * widthInPct c / Fin 100) (rowFreeSpace w cs)\<rparr>\<rparr> else c)
      in if Fin 0 < heightInPct c1
         then c1\<lparr>node := (node c1)\<lparr>calculatedHeight := h * HeightInPct (node c1) / Fin 100\<rparr>\<rparr>
         else c1)"
  have "resolvePercent f w h es = map G es"
    using assms(1) rowFreeSpace_elements [of f cs w]
    by (simp add: resolvePercent_def G_def Let_def es_def)
  then obtain e0 where e0: "e0 \<in> set es" and g0: "e1 = G e0"
    using e1 by auto
  have "idx e0 = k"
    using g0 k1 by (simp add: G_def Let_def split: if_splits)
  then have "e0 = newElement f k ((cs ! k)\<lparr>absolute := False\<rparr>)"
    using element_form [of e0 f cs] e0 by (simp add: es_def)
  then have "calculatedWidth (node e1)
             = (if Fin 0 < rowFreeSpace w cs
                then math_Min (w * WidthInPct (cs ! k) / Fin 100) (rowFreeSpace w cs)
                else calculatedWidth (cs ! k))"
    using g0 assms(5) by (simp add: G_def Let_def newElement_def)
  moreover have "calculatedWidth (node (commitChild d g e)) = calculatedWidth (node e1)"
    using n by (simp add: commitChild_def Let_def setFrame_def)
  ultimately show ?thesis
    using r by (simp add: percentExample_frames)
qed

theorem percent_width_witness:
  "calculatedWidth (snd (layout True percentRoot (Fin 500) (Fin 500) percentItems) ! 0) = Fin 450"
proof -
  have "Direction percentRoot = Row" and "0 < length percentItems"
    and "Display (percentItems ! 0) \<noteq> DisplayNone"
    and "Position (percentItems ! 0) \<noteq> PositionAbsolute"
    and "Fin 0 < WidthInPct (percentItems ! 0)"
    by (simp_all add: example_defs zeroChild_def zeroView_def View.extend_def)
  from percent_width [OF this, of True "Fin 500" "Fin 500"]
  show ?thesis
    by (simp add: example_defs rowFreeSpace_def isFlow_def zeroChild_def zeroView_def
        View.extend_def math_Min_def minus_float64_def)
qed

section \<open>Results for the tick\<close>

lemma startLayout_clean: "\<not> isDirty (item (startLayout d t))"
  by (cases t) (simp add: Let_def split: prod.splits)

lemma Update_allClean: "allClean (Update d t)"
proof (induction d t rule: Update.induct)
  case (1 d t)
  define t1 where "t1 = (if isDirty (item t) then startLayout d t else t)"
  have root: "\<not> isDirty (item t1)"
    by (simp add: t1_def startLayout_clean)
  have "allClean (Update d c)" if "c \<in> set (subviews t1)" for c
    using "1.IH" [OF t1_def that] .
  then have "list_all allClean (map (Update d) (subviews t1))"
    by (simp add: list_all_iff)
  moreover have "Update d t = ViewNode (item t1) (map (Update d) (subviews t1))"
    by (subst Update.simps) (simp add: t1_def Let_def)
  ultimately show ?case
    using root by simp
qed

lemma Update_clean_id: "allClean t \<Longrightarrow> Update d t = t"
proof (induction t)
  case (ViewNode v cs)
  have "map (Update d) cs = cs"
    using ViewNode by (simp add: list_all_iff map_idI)
  then show ?case
    using ViewNode.prems by (subst Update.simps) simp
qed

text \<open>
  C7. For every view tree, after one \<open>Update\<close> a second \<open>Update\<close> with no mutation in
  between returns the tree it was given, so every frame is the same, and no view of the
  tree, the root included, is dirty when the first \<open>Update\<close> ends: the second one lays
  nothing out.
\<close>

theorem Update_idempotent:
  "Update d (Update d t) = Update d t
   \<and> \<not> isDirty (item (Update d t))
   \<and> allClean (Update d t)"
proof -
  have c: "allClean (Update d t)"
    by (rule Update_allClean)
  then have "\<not> isDirty (item (Update d t))"
    by (cases "Update d t") simp
  with c show ?thesis
    by (simp add: Update_clean_id)
qed

section \<open>Results for the node operations\<close>

lemma Layout_post:
  assumes "hasParent (h v) \<longrightarrow> parent (h v) = Some p"
    and "hasParent written = hasParent (h v)" and "parent written = parent (h v)"
  shows "\<exists>h'. Layout v (h(v := written)) = Inr h' \<and> setterPost h v p written h'"
  using assms by (auto simp: Layout_def setterPost_def Let_def)

text \<open>
  C8. Every setter of a style attribute sets the dirty flag of its node and, when the
  node has a parent, the dirty flag of the parent, and changes nothing else but the
  attribute it writes. The hypothesis says that \<open>p\<close> is the parent of a node that has one
  (\<open>hasParent\<close> and \<open>parent\<close> are always written together).
\<close>

theorem setters_mark_dirty:
  assumes "hasParent (h v) \<longrightarrow> parent (h v) = Some p"
  shows "(\<exists>h'. SetLeft v x h = Inr h' \<and> setterPost h v p ((h v)\<lparr>Left := x\<rparr>) h')
    \<and> (\<exists>h'. SetRight v x h = Inr h' \<and> setterPost h v p ((h v)\<lparr>Right := Some x\<rparr>) h')
    \<and> (\<exists>h'. SetTop v x h = Inr h' \<and> setterPost h v p ((h v)\<lparr>Top := x\<rparr>) h')
    \<and> (\<exists>h'. SetBottom v x h = Inr h' \<and> setterPost h v p ((h v)\<lparr>Bottom := Some x\<rparr>) h')
    \<and> (\<exists>h'. SetWidth v x h = Inr h' \<and> setterPost h v p ((h v)\<lparr>Width := x\<rparr>) h')
    \<and> (\<exists>h'. SetHeight v x h = Inr h' \<and> setterPost h v p ((h v)\<lparr>Height := x\<rparr>) h')
    \<and> (\<exists>h'. SetMarginLeft v x h = Inr h' \<and> setterPost h v p ((h v)\<lparr>MarginLeft := x\<rparr>) h')
    \<and> (\<exists>h'. SetMarginTop v x h = Inr h' \<and> setterPost h v p ((h v)\<lparr>MarginTop := x\<rparr>) h')
    \<and> (\<exists>h'. SetMarginRight v x h = Inr h' \<and> setterPost h v p ((h v)\<lparr>MarginRight := x\<rparr>) h')
    \<and> (\<exists>h'. SetMarginBottom v x h = Inr h'
           \<and> setterPost h v p ((h v)\<lparr>MarginBottom := x\<rparr>) h')
    \<and> (\<exists>h'. SetPosition v po h = Inr h' \<and> setterPost h v p ((h v)\<lparr>Position := po\<rparr>) h')
    \<and> (\<exists>h'. SetDirection v di h = Inr h' \<and> setterPost h v p ((h v)\<lparr>Direction := di\<rparr>) h')
    \<and> (\<exists>h'. SetWrap v wr h = Inr h' \<and> setterPost h v p ((h v)\<lparr>Wrap := wr\<rparr>) h')
    \<and> (\<exists>h'. SetJustify v ju h = Inr h' \<and> setterPost h v p ((h v)\<lparr>Justify := ju\<rparr>) h')
    \<and> (\<exists>h'. SetAlignItems v ai h = Inr h' \<and> setterPost h v p ((h v)\<lparr>AlignItems := ai\<rparr>) h')
    \<and> (\<exists>h'. SetAlignContent v ac h = Inr h'
           \<and> setterPost h v p ((h v)\<lparr>AlignContent := ac\<rparr>) h')
    \<and> (\<exists>h'. SetGrow v x h = Inr h' \<and> setterPost h v p ((h v)\<lparr>Grow := x\<rparr>) h')
    \<and> (\<exists>h'. SetShrink v x h = Inr h' \<and> setterPost h v p ((h v)\<lparr>Shrink := x\<rparr>) h')
    \<and> (\<exists>h'. SetDisplay v dp h = Inr h' \<and> setterPost h v p ((h v)\<lparr>Display := dp\<rparr>) h')
    \<and> (\<exists>h'. SetHidden v b h = Inr h' \<and> setterPost h v p ((h v)\<lparr>Hidden := b\<rparr>) h')"
  unfolding SetLeft_def SetRight_def SetTop_def SetBottom_def SetWidth_def SetHeight_def
    SetMarginLeft_def SetMarginTop_def SetMarginRight_def SetMarginBottom_def
    SetPosition_def SetDirection_def SetWrap_def SetJustify_def SetAlignItems_def
    SetAlignContent_def SetGrow_def SetShrink_def SetDisplay_def SetHidden_def
  by (intro conjI Layout_post [where h = h and v = v and p = p, OF assms]) simp_all

text \<open>The witness: view 1 is a child of view 0; setting its width marks both dirty.\<close>

theorem setters_mark_dirty_witness:
  "\<exists>h'. SetWidth 1 (Fin 5) (addChild 0 1 freshStore) = Inr h'
      \<and> Width (h' 1) = Fin 5 \<and> isDirty (h' 1) \<and> isDirty (h' 0) \<and> h' 2 = freshStore 2"
proof -
  have p: "hasParent (addChild 0 1 freshStore 1) \<longrightarrow> parent (addChild 0 1 freshStore 1) = Some 0"
    by (simp add: addChild_def Let_def)
  from setters_mark_dirty [where h = "addChild 0 1 freshStore" and v = 1 and p = 0
      and x = "Fin 5", OF p]
  obtain h' where s: "SetWidth 1 (Fin 5) (addChild 0 1 freshStore) = Inr h'"
    and q: "setterPost (addChild 0 1 freshStore) 1 0
              ((addChild 0 1 freshStore 1)\<lparr>Width := Fin 5\<rparr>) h'"
    by blast
  have "hasParent (addChild 0 1 freshStore 1)"
    by (simp add: addChild_def Let_def)
  with q have "Width (h' 1) = Fin 5" and "isDirty (h' 1)" and "isDirty (h' 0)"
    and "h' 2 = addChild 0 1 freshStore 2"
    by (simp_all add: setterPost_def)
  moreover have "addChild 0 1 freshStore 2 = freshStore 2"
    by (simp add: addChild_def Let_def)
  ultimately show ?thesis
    using s by simp
qed

text \<open>
  C10. For a view with an empty child list \<open>PopChild\<close> returns nil and changes nothing:
  the child list stays empty and the dirty flag keeps its value.
\<close>

theorem PopChild_empty:
  assumes "children (h v) = []"
  shows "PopChild v h = (None, h)
    \<and> children (snd (PopChild v h) v) = []
    \<and> isDirty (snd (PopChild v h) v) = isDirty (h v)"
  using assms by (simp add: PopChild_def)

theorem PopChild_empty_witness:
  "children (freshStore 0) = [] \<and> PopChild 0 freshStore = (None, freshStore)"
proof -
  have e: "children (freshStore 0) = []"
    by (simp add: freshStore_def zeroViewObj_def View.extend_def)
  show ?thesis
    using e PopChild_empty [where h = freshStore and v = 0, OF e] by simp
qed

text \<open>
  C1. The claim: attaching a view that already has a parent aborts, whatever the attach
  operation, and leaves both child lists as they were. \<open>AddTo\<close> does abort. \<open>AddChild\<close> and
  \<open>addChild\<close> have no such check: below, view 2 is a child of view 0 and is then added to
  view 1 with \<open>AddChild\<close>. The call returns, view 2 is in both child lists and its parent
  pointer is view 1; the same attachment through \<open>AddTo\<close> panics.
\<close>

theorem AddChild_attaches_parented_view:
  "hasParent (AddChild 0 [2] freshStore 2)
   \<and> parent (AddChild 0 [2] freshStore 2) = Some 0
   \<and> children (AddChild 1 [2] (AddChild 0 [2] freshStore) 0) = [2]
   \<and> children (AddChild 1 [2] (AddChild 0 [2] freshStore) 1) = [2]
   \<and> parent (AddChild 1 [2] (AddChild 0 [2] freshStore) 2) = Some 1
   \<and> AddTo 2 1 (AddChild 0 [2] freshStore) = Inl AlreadyAdded"
  by (simp add: AddTo_def addChild_def freshStore_def zeroViewObj_def View.extend_def Let_def)

end
